theory Spec2Isabelle
  imports Complex_Main
begin

section \<open>Values, errors and the objects of agent.py\<close>

text \<open>
  The module is glue between a session store, SQL servers, a vector store and an agent
  library. The embedding keeps every function of the module under its own name and makes
  the surroundings explicit: exceptions are values of \<open>error\<close>, the mutable session
  store, the object heaps, the resource caches and the external services are fields of one
  \<open>world\<close> record that each function takes and returns, and every call that leaves the
  process is written to a trace.
\<close>

datatype error =
    ValueError string
  | KeyError string
  | AttributeError string
  | OperationalError string
  | ResourceClosedError
  | ApiException string

text \<open>
  A column value of a fetched row, with Python's \<open>str\<close> of it. Integers, strings,
  \<open>None\<close> and booleans are modelled; floats, dates and byte strings are not.
\<close>

datatype sql_value = SqlInt int | SqlStr string | SqlNone | SqlBool bool

type_synonym row = "sql_value list"

definition digit_char :: "nat \<Rightarrow> char" where
  "digit_char n = ''0123456789'' ! n"

function str_nat :: "nat \<Rightarrow> string" where
  "str_nat n = (if n < 10 then [digit_char n] else str_nat (n div 10) @ [digit_char (n mod 10)])"
  by pat_completeness auto
termination
  by (relation "measure id") auto

declare str_nat.simps [simp del]

definition str_int :: "int \<Rightarrow> string" where
  "str_int i = (if i < 0 then ''-'' @ str_nat (nat (- i)) else str_nat (nat i))"

fun str :: "sql_value \<Rightarrow> string" where
  "str (SqlInt i) = str_int i"
| "str (SqlStr s) = s"
| "str SqlNone = ''None''"
| "str (SqlBool b) = (if b then ''True'' else ''False'')"

text \<open>Python's \<open>sep.join(xs)\<close>.\<close>

fun join :: "string \<Rightarrow> string list \<Rightarrow> string" where
  "join sep [] = []"
| "join sep [x] = x"
| "join sep (x # y # ys) = x @ sep @ join sep (y # ys)"

datatype document = Document (doc_text: string)

subsection \<open>The session store\<close>

text \<open>
  Modelled from the spec: \<open>common.VectorStoreType\<close>, \<open>common.get_vector_store_type\<close>,
  \<open>common.DatabaseProps\<close>, the vector-store descriptor and \<open>common.Conversation\<close> are
  imported by agent.py from a module that is not part of the sources. The spec's data model
  gives a descriptor a discriminator (in-memory or hosted) and the hosted fields API key,
  environment and index name; a database descriptor its connection URI; a conversation a
  vector-store id, a list of database ids, a queue of (query, result rows) pairs and a
  last-update timestamp.
\<close>

datatype VectorStoreType = InMemory | PineconeDB

record vector_store_props =
  store_type :: VectorStoreType
  api_key :: string
  environment :: string
  index_name :: string

definition get_vector_store_type :: "vector_store_props \<Rightarrow> VectorStoreType" where
  "get_vector_store_type props = store_type props"

record DatabaseProps =
  uri :: string

record Conversation =
  vector_store_id :: string
  database_ids :: "string list"
  query_results_queue :: "(string \<times> row list) list"
  last_update :: real

text \<open>
  \<open>st.session_state\<close>: the three mappings keyed by id and the pointer to the active
  conversation.
\<close>

record session_state =
  vector_stores :: "string \<rightharpoonup> vector_store_props"
  databases :: "string \<rightharpoonup> DatabaseProps"
  conversations :: "string \<rightharpoonup> Conversation"
  current_conversation :: string

subsection \<open>The database adapter\<close>

text \<open>
  A handler is a Python callable taking the query and the fetched rows; the one handler of
  the module acts on the session store, so a callable is a function on \<open>session_state\<close>
  that may raise.

  The class body of \<open>TrackingDatabaseToolSpec\<close> only annotates \<open>handler\<close>; an annotation
  without a value creates no attribute, so a new adapter has none until \<open>set_handler\<close>
  assigns one. \<open>Unset\<close> is that state; \<open>Attr None\<close> is a falsy value stored by
  \<open>set_handler\<close>, \<open>Attr (Some f)\<close> a callable.

  The adapter holds the URI it was built from and what the base class reflected from the
  database when it was constructed: the table names and the schema text of a list of
  tables.
\<close>

type_synonym callback = "string \<Rightarrow> row list \<Rightarrow> session_state \<Rightarrow> error + session_state"

datatype handler_attr = Unset | Attr "callback option"

record adapter =
  adapter_uri :: string
  handler :: handler_attr
  table_names :: "string list"
  describe :: "string list \<Rightarrow> string"

subsection \<open>External services\<close>

text \<open>
  An SQL server reachable at a URI. What a statement returns may depend on the statements
  executed before it, so the server keeps their history and \<open>db_run\<close> maps the history and
  the statement to the outcome of \<open>connection.execute\<close>: an error, a result with rows, or a
  result without rows (on which \<open>fetchall\<close> raises).
\<close>

datatype cursor_result = ReturnsRows "row list" | NoRows

record database =
  db_up :: bool
  db_tables :: "string list"
  db_describe :: "string list \<Rightarrow> string"
  db_history :: "string list"
  db_run :: "string list \<Rightarrow> string \<Rightarrow> error + cursor_result"

text \<open>
  The hosted vector database as its client library shows it: the configured API key and
  environment, and the indexes by name with their dimension and metric. Network failures
  of the hosted service are not modelled; creating an index that exists is refused by the
  service.
\<close>

record pinecone_state =
  pc_config :: "(string \<times> string) option"
  pc_indexes :: "(string \<times> nat \<times> string) list"

text \<open>
  A vector store object: the in-memory store with the documents indexed into it so far, or
  the client of a hosted index, by the index name. A storage context holds a reference to
  its vector store.
\<close>

datatype vector_store = SimpleVectorStore "document list" | PineconeVectorStore string

datatype StorageContext = StorageContext (sc_vector_store: nat)

record ToolMetadata =
  md_name :: string
  md_description :: string

text \<open>
  A vector index is the documents it was built from and the storage context it was built
  in; a query engine answers from its index; the tool is the engine with its metadata.
\<close>

record VectorStoreIndex =
  index_documents :: "document list"
  index_storage :: StorageContext

datatype query_engine = RetrieverQueryEngine (engine_index: VectorStoreIndex)

record QueryEngineTool =
  query_engine :: query_engine
  metadata :: ToolMetadata

text \<open>
  A tool of the agent: the query-engine tool, or a function tool bound to a method of the
  adapter at a heap reference.
\<close>

datatype tool = QueryTool QueryEngineTool | FunctionTool nat string

record agent =
  agent_tools :: "tool list"
  verbose :: bool

datatype event =
    Connect string
  | Execute string string
  | HandlerCall string "row list"
  | Close string
  | Construct string
  | PineconeInit string string
  | ListIndexes
  | CreateIndex string nat string
  | BindIndex string
  | Upsert string "document list"

text \<open>
  The world: the session store, the servers by URI, the hosted vector database, the heaps
  of adapters, vector stores and agents (a reference is an index into the heap, so two
  references are the same object exactly when they are equal), the four caches of
  \<open>st.cache_resource\<close>, and the trace of external calls.
\<close>

record world =
  session :: session_state
  servers :: "string \<rightharpoonup> database"
  pinecone :: pinecone_state
  adapters :: "adapter list"
  vector_store_heap :: "vector_store list"
  agents :: "agent list"
  storage_cache :: "string \<rightharpoonup> StorageContext"
  spec_cache :: "string \<rightharpoonup> nat"
  tool_cache :: "string \<times> string \<rightharpoonup> QueryEngineTool"
  agent_cache :: "string \<times> real \<rightharpoonup> nat"
  trace :: "event list"

definition emit :: "event \<Rightarrow> world \<Rightarrow> world" where
  "emit e w = w\<lparr>trace := trace w @ [e]\<rparr>"

section \<open>TrackingDatabaseToolSpec\<close>

text \<open>\<open>self.sql_database.engine.connect()\<close>: fails when no server is up at the URI.\<close>

definition connect :: "string \<Rightarrow> world \<Rightarrow> (error + unit) \<times> world" where
  "connect u w =
     (case servers w u of
        None \<Rightarrow> (Inl (OperationalError u), emit (Connect u) w)
      | Some db \<Rightarrow>
          if db_up db then (Inr (), emit (Connect u) w)
          else (Inl (OperationalError u), emit (Connect u) w))"

text \<open>
  \<open>connection.execute(text(query))\<close>: the server runs the statement, which joins its
  history whatever the outcome.
\<close>

definition execute :: "string \<Rightarrow> string \<Rightarrow> world \<Rightarrow> (error + cursor_result) \<times> world" where
  "execute u q w =
     (case servers w u of
        None \<Rightarrow> (Inl (OperationalError u), emit (Execute u q) w)
      | Some db \<Rightarrow>
          (db_run db (db_history db) q,
           emit (Execute u q) (w\<lparr>servers := (servers w)(u \<mapsto> db\<lparr>db_history := db_history db @ [q]\<rparr>)\<rparr>)))"

definition fetchall :: "cursor_result \<Rightarrow> error + row list" where
  "fetchall r = (case r of ReturnsRows rs \<Rightarrow> Inr rs | NoRows \<Rightarrow> Inl ResourceClosedError)"

text \<open>Leaving the \<open>with\<close> block, on return and on an exception alike.\<close>

definition close :: "string \<Rightarrow> world \<Rightarrow> world" where
  "close u w = emit (Close u) w"

definition set_handler :: "callback option \<Rightarrow> adapter \<Rightarrow> adapter" where
  "set_handler func self = self\<lparr>handler := Attr func\<rparr>"

definition row_document :: "row \<Rightarrow> document" where
  "row_document item = Document (join '', '' (map str item))"

text \<open>
  \<open>load_data\<close>. The connection is opened first; the test of the query, the execution, the
  fetch, the guard on the handler, the call of the handler and the loop over the rows are
  all inside the \<open>with\<close> block, so each way out of it closes the connection.
\<close>

definition load_data :: "adapter \<Rightarrow> string option \<Rightarrow> world \<Rightarrow> (error + document list) \<times> world" where
  "load_data self query w =
     (case connect (adapter_uri self) w of
        (Inl e, w1) \<Rightarrow> (Inl e, w1)
      | (Inr _, w1) \<Rightarrow>
          (case query of
             None \<Rightarrow>
               (Inl (ValueError ''A query parameter is necessary to filter the data''),
                close (adapter_uri self) w1)
           | Some q \<Rightarrow>
               (case execute (adapter_uri self) q w1 of
                  (Inl e, w2) \<Rightarrow> (Inl e, close (adapter_uri self) w2)
                | (Inr result, w2) \<Rightarrow>
                    (case fetchall result of
                       Inl e \<Rightarrow> (Inl e, close (adapter_uri self) w2)
                     | Inr items \<Rightarrow>
                         (case handler self of
                            Unset \<Rightarrow> (Inl (AttributeError ''handler''), close (adapter_uri self) w2)
                          | Attr None \<Rightarrow> (Inr (map row_document items), close (adapter_uri self) w2)
                          | Attr (Some f) \<Rightarrow>
                              (case f q items (session (emit (HandlerCall q items) w2)) of
                                 Inl e \<Rightarrow>
                                   (Inl e, close (adapter_uri self) (emit (HandlerCall q items) w2))
                               | Inr s \<Rightarrow>
                                   (Inr (map row_document items),
                                    close (adapter_uri self)
                                      ((emit (HandlerCall q items) w2)\<lparr>session := s\<rparr>))))))))"

section \<open>The result-forwarding callback\<close>

definition database_spec_handler :: callback where
  "database_spec_handler query items s =
     (case conversations s (current_conversation s) of
        None \<Rightarrow> Inl (KeyError (current_conversation s))
      | Some conversation \<Rightarrow>
          Inr (s\<lparr>conversations := (conversations s)(current_conversation s \<mapsto>
                 conversation\<lparr>query_results_queue :=
                   query_results_queue conversation @ [(query, items)]\<rparr>)\<rparr>))"

section \<open>The resource cache\<close>

text \<open>
  \<open>st.cache_resource\<close> keeps one object per argument tuple: a call whose key is in the
  cache returns the stored object and does not run the function; otherwise the function
  runs, and its result is stored unless it raised. \<open>lookup\<close> reads the function's cache
  in the world and \<open>store\<close> writes an entry.
\<close>

definition cache_resource ::
  "(world \<Rightarrow> 'k \<rightharpoonup> 'v) \<Rightarrow> ('k \<Rightarrow> 'v \<Rightarrow> world \<Rightarrow> world) \<Rightarrow>
   ('k \<Rightarrow> world \<Rightarrow> (error + 'v) \<times> world) \<Rightarrow> 'k \<Rightarrow> world \<Rightarrow> (error + 'v) \<times> world" where
  "cache_resource lookup store f k w =
     (case lookup w k of
        Some v \<Rightarrow> (Inr v, w)
      | None \<Rightarrow>
          (case f k w of
             (Inl e, w1) \<Rightarrow> (Inl e, w1)
           | (Inr v, w1) \<Rightarrow> (Inr v, store k v w1)))"

section \<open>get_storage_context\<close>

definition pinecone_init :: "string \<Rightarrow> string \<Rightarrow> world \<Rightarrow> world" where
  "pinecone_init key env w =
     emit (PineconeInit key env) (w\<lparr>pinecone := (pinecone w)\<lparr>pc_config := Some (key, env)\<rparr>\<rparr>)"

definition pinecone_list_indexes :: "world \<Rightarrow> string list \<times> world" where
  "pinecone_list_indexes w = (map fst (pc_indexes (pinecone w)), emit ListIndexes w)"

definition pinecone_create_index ::
  "string \<Rightarrow> nat \<Rightarrow> string \<Rightarrow> world \<Rightarrow> (error + unit) \<times> world" where
  "pinecone_create_index name dimension metric w =
     (if name \<in> set (map fst (pc_indexes (pinecone w)))
      then (Inl (ApiException name), emit (CreateIndex name dimension metric) w)
      else (Inr (),
            emit (CreateIndex name dimension metric)
              (w\<lparr>pinecone := (pinecone w)\<lparr>pc_indexes :=
                   pc_indexes (pinecone w) @ [(name, dimension, metric)]\<rparr>\<rparr>)))"

definition pinecone_Index :: "string \<Rightarrow> world \<Rightarrow> string \<times> world" where
  "pinecone_Index name w = (name, emit (BindIndex name) w)"

text \<open>Constructing a vector store object puts it on the heap and gives its reference.\<close>

definition new_vector_store :: "vector_store \<Rightarrow> world \<Rightarrow> nat \<times> world" where
  "new_vector_store v w =
     (length (vector_store_heap w), w\<lparr>vector_store_heap := vector_store_heap w @ [v]\<rparr>)"

definition get_storage_context_body :: "string \<Rightarrow> world \<Rightarrow> (error + StorageContext) \<times> world" where
  "get_storage_context_body store_id w =
     (case vector_stores (session w) store_id of
        None \<Rightarrow> (Inl (KeyError store_id), w)
      | Some vector_store_props \<Rightarrow>
          (case get_vector_store_type vector_store_props of
             InMemory \<Rightarrow>
               (case new_vector_store (SimpleVectorStore []) w of
                  (vector_store, w1) \<Rightarrow> (Inr (StorageContext vector_store), w1))
           | PineconeDB \<Rightarrow>
               (case pinecone_list_indexes
                       (pinecone_init (api_key vector_store_props)
                          (environment vector_store_props) w) of
                  (existing, w2) \<Rightarrow>
                    (case (if index_name vector_store_props \<notin> set existing
                           then pinecone_create_index (index_name vector_store_props) 1536
                                  ''cosine'' w2
                           else (Inr (), w2)) of
                       (Inl e, w3) \<Rightarrow> (Inl e, w3)
                     | (Inr _, w3) \<Rightarrow>
                         (case pinecone_Index (index_name vector_store_props) w3 of
                            (pinecone_index, w4) \<Rightarrow>
                              (case new_vector_store (PineconeVectorStore pinecone_index) w4 of
                                 (vector_store, w5) \<Rightarrow>
                                   (Inr (StorageContext vector_store), w5)))))))"

definition get_storage_context :: "string \<Rightarrow> world \<Rightarrow> (error + StorageContext) \<times> world" where
  "get_storage_context =
     cache_resource storage_cache (\<lambda>k v w. w\<lparr>storage_cache := (storage_cache w)(k \<mapsto> v)\<rparr>)
       get_storage_context_body"

section \<open>get_database_spec\<close>

text \<open>
  The constructor \<open>TrackingDatabaseToolSpec(uri=...)\<close>: the base class connects to the
  server and reflects its tables, and fails when no server is up at the URI. The new object
  has no \<open>handler\<close> attribute.
\<close>

definition TrackingDatabaseToolSpec :: "string \<Rightarrow> world \<Rightarrow> (error + nat) \<times> world" where
  "TrackingDatabaseToolSpec u w =
     (case servers w u of
        None \<Rightarrow> (Inl (OperationalError u), emit (Construct u) w)
      | Some db \<Rightarrow>
          if db_up db
          then (Inr (length (adapters w)),
                emit (Construct u)
                  (w\<lparr>adapters := adapters w @
                       [\<lparr>adapter_uri = u, handler = Unset, table_names = db_tables db,
                         describe = db_describe db\<rparr>]\<rparr>))
          else (Inl (OperationalError u), emit (Construct u) w))"

definition get_database_spec_body :: "string \<Rightarrow> world \<Rightarrow> (error + nat) \<times> world" where
  "get_database_spec_body database_id w =
     (case databases (session w) database_id of
        None \<Rightarrow> (Inl (KeyError database_id), w)
      | Some database \<Rightarrow> TrackingDatabaseToolSpec (uri database) w)"

definition get_database_spec :: "string \<Rightarrow> world \<Rightarrow> (error + nat) \<times> world" where
  "get_database_spec =
     cache_resource spec_cache (\<lambda>k v w. w\<lparr>spec_cache := (spec_cache w)(k \<mapsto> v)\<rparr>)
       get_database_spec_body"

section \<open>get_query_tool\<close>

definition list_tables :: "adapter \<Rightarrow> string list" where
  "list_tables self = table_names self"

definition describe_tables :: "adapter \<Rightarrow> string list \<Rightarrow> string" where
  "describe_tables self tables = describe self tables"

text \<open>The f-string \<open>Definition of "{table}" table:\n{description}\<close>.\<close>

definition table_document :: "adapter \<Rightarrow> string \<Rightarrow> document" where
  "table_document db_spec table =
     Document (''Definition of '' @ [CHR 0x22] @ table @ [CHR 0x22] @ '' table:'' @ [CHR 0x0A]
               @ describe_tables db_spec [table])"

text \<open>
  \<open>VectorStoreIndex.from_documents\<close> indexes the documents into the vector store of the
  storage context: an in-memory store gains them, a hosted index receives them. Failures of
  the embedding service are not modelled.
\<close>

definition from_documents ::
  "document list \<Rightarrow> StorageContext \<Rightarrow> world \<Rightarrow> VectorStoreIndex \<times> world" where
  "from_documents documents storage_context w =
     (\<lparr>index_documents = documents, index_storage = storage_context\<rparr>,
      (if sc_vector_store storage_context < length (vector_store_heap w)
       then (case vector_store_heap w ! sc_vector_store storage_context of
               SimpleVectorStore ds \<Rightarrow>
                 w\<lparr>vector_store_heap := (vector_store_heap w)
                      [sc_vector_store storage_context := SimpleVectorStore (ds @ documents)]\<rparr>
             | PineconeVectorStore name \<Rightarrow> emit (Upsert name documents) w)
       else w))"

definition as_query_engine :: "VectorStoreIndex \<Rightarrow> query_engine" where
  "as_query_engine index = RetrieverQueryEngine index"

definition get_query_tool_body ::
  "string \<times> string \<Rightarrow> world \<Rightarrow> (error + QueryEngineTool) \<times> world" where
  "get_query_tool_body key w =
     (case key of (store_id, database_id) \<Rightarrow>
       (case get_database_spec database_id w of
          (Inl e, w1) \<Rightarrow> (Inl e, w1)
        | (Inr db_spec, w1) \<Rightarrow>
            (case get_storage_context store_id w1 of
               (Inl e, w2) \<Rightarrow> (Inl e, w2)
             | (Inr storage_context, w2) \<Rightarrow>
                 (case from_documents
                         (map (table_document (adapters w1 ! db_spec))
                            (list_tables (adapters w1 ! db_spec)))
                         storage_context w2 of
                    (index, w3) \<Rightarrow>
                      (Inr \<lparr>query_engine = as_query_engine index,
                            metadata = \<lparr>md_name = ''table_query_engine'',
                              md_description = ''Contains table descriptions for the database''\<rparr>\<rparr>,
                       w3)))))"

definition get_query_tool :: "string \<Rightarrow> string \<Rightarrow> world \<Rightarrow> (error + QueryEngineTool) \<times> world" where
  "get_query_tool store_id database_id =
     cache_resource tool_cache (\<lambda>k v w. w\<lparr>tool_cache := (tool_cache w)(k \<mapsto> v)\<rparr>)
       get_query_tool_body (store_id, database_id)"

section \<open>get_agent\<close>

text \<open>
  \<open>db_spec.to_tool_list()\<close>: one function tool per method the base class exposes.
\<close>

definition to_tool_list :: "nat \<Rightarrow> tool list" where
  "to_tool_list db_spec =
     [FunctionTool db_spec ''load_data'', FunctionTool db_spec ''describe_tables'',
      FunctionTool db_spec ''list_tables'']"

text \<open>\<open>db_spec.set_handler(func)\<close> on the adapter object at a reference.\<close>

definition set_handler_at :: "nat \<Rightarrow> callback option \<Rightarrow> world \<Rightarrow> world" where
  "set_handler_at db_spec func w =
     w\<lparr>adapters := (adapters w)[db_spec := set_handler func (adapters w ! db_spec)]\<rparr>"

text \<open>The loop over \<open>conversation.database_ids\<close>, with the tools collected so far.\<close>

fun create_tools ::
  "string \<Rightarrow> string list \<Rightarrow> tool list \<Rightarrow> world \<Rightarrow> (error + tool list) \<times> world" where
  "create_tools store_id [] tools w = (Inr tools, w)"
| "create_tools store_id (database_id # rest) tools w =
     (case get_database_spec database_id w of
        (Inl e, w1) \<Rightarrow> (Inl e, w1)
      | (Inr db_spec, w1) \<Rightarrow>
          (case get_query_tool store_id database_id w1 of
             (Inl e, w2) \<Rightarrow> (Inl e, w2)
           | (Inr query_tool, w2) \<Rightarrow>
               create_tools store_id rest
                 (tools @ [QueryTool query_tool] @ to_tool_list db_spec)
                 (set_handler_at db_spec (Some database_spec_handler) w2)))"

text \<open>\<open>OpenAIAgent.from_tools(tools, verbose=True)\<close>: a new agent object.\<close>

definition from_tools :: "tool list \<Rightarrow> bool \<Rightarrow> world \<Rightarrow> nat \<times> world" where
  "from_tools tools v w =
     (length (agents w), w\<lparr>agents := agents w @ [\<lparr>agent_tools = tools, verbose = v\<rparr>]\<rparr>)"

definition get_agent_body :: "string \<times> real \<Rightarrow> world \<Rightarrow> (error + nat) \<times> world" where
  "get_agent_body key w =
     (case key of (conversation_id, last_update_timestamp) \<Rightarrow>
       (case conversations (session w) conversation_id of
          None \<Rightarrow> (Inl (KeyError conversation_id), w)
        | Some conversation \<Rightarrow>
            (case create_tools (vector_store_id conversation) (database_ids conversation) [] w of
               (Inl e, w1) \<Rightarrow> (Inl e, w1)
             | (Inr tools, w1) \<Rightarrow>
                 (case from_tools tools True w1 of (agent, w2) \<Rightarrow> (Inr agent, w2)))))"

definition get_agent :: "string \<Rightarrow> real \<Rightarrow> world \<Rightarrow> (error + nat) \<times> world" where
  "get_agent conversation_id last_update_timestamp =
     cache_resource agent_cache (\<lambda>k v w. w\<lparr>agent_cache := (agent_cache w)(k \<mapsto> v)\<rparr>)
       get_agent_body (conversation_id, last_update_timestamp)"

section \<open>Drivers and a concrete world\<close>

text \<open>Whether \<open>engine.connect()\<close> succeeds for a URI.\<close>

definition reachable :: "world \<Rightarrow> string \<Rightarrow> bool" where
  "reachable w u = (case servers w u of None \<Rightarrow> False | Some db \<Rightarrow> db_up db)"

text \<open>
  The queries an agent sends to the \<open>load_data\<close> tool of one adapter, one call after the
  other. Every call is made, whether or not an earlier one raised, and the outcome of each
  is kept.
\<close>

fun load_data_each ::
  "adapter \<Rightarrow> string list \<Rightarrow> world \<Rightarrow> (error + document list) list \<times> world" where
  "load_data_each self [] w = ([], w)"
| "load_data_each self (q # qs) w =
     (case load_data self (Some q) w of
        (r, w1) \<Rightarrow> (case load_data_each self qs w1 of (rs, w2) \<Rightarrow> (r # rs, w2)))"

text \<open>
  What a server gives for the statements of a sequence, run one after the other: for each
  statement the rows that \<open>execute\<close> and \<open>fetchall\<close> yield, or the exception that one of
  the two raises. Every statement joins the history.
\<close>

fun server_rows :: "database \<Rightarrow> string list \<Rightarrow> (error + row list) list" where
  "server_rows db [] = []"
| "server_rows db (q # qs) =
     (case db_run db (db_history db) q of Inl e \<Rightarrow> Inl e | Inr r \<Rightarrow> fetchall r) #
     server_rows (db\<lparr>db_history := db_history db @ [q]\<rparr>) qs"

text \<open>Of statements paired with their outcomes, those that gave rows, with the rows.\<close>

fun returned :: "(string \<times> (error + row list)) list \<Rightarrow> (string \<times> row list) list" where
  "returned [] = []"
| "returned ((q, Inr rows) # xs) = (q, rows) # returned xs"
| "returned ((q, Inl e) # xs) = returned xs"

text \<open>
  A server with two tables: one query returns two rows, one counts the statements run so
  far, one statement returns no rows, anything else is refused.
\<close>

definition demo_run :: "string list \<Rightarrow> string \<Rightarrow> error + cursor_result" where
  "demo_run history q =
     (if q = ''SELECT id, name FROM t''
      then Inr (ReturnsRows [[SqlInt 1, SqlStr ''a''], [SqlInt 2, SqlStr ''b'']])
      else if q = ''SELECT COUNT(*) FROM log''
      then Inr (ReturnsRows [[SqlInt (int (length history))]])
      else if q = ''DELETE FROM t'' then Inr NoRows
      else Inl (OperationalError q))"

definition demo_database :: database where
  "demo_database =
     \<lparr>db_up = True, db_tables = [''t'', ''log''],
      db_describe = (\<lambda>ts. join '', '' (map (\<lambda>t. ''CREATE TABLE '' @ t) ts)),
      db_history = [], db_run = demo_run\<rparr>"

definition demo_session :: session_state where
  "demo_session =
     \<lparr>vector_stores =
        [''mem'' \<mapsto> \<lparr>store_type = InMemory, api_key = [], environment = [],
                     index_name = []\<rparr>,
         ''hosted'' \<mapsto> \<lparr>store_type = PineconeDB, api_key = ''key'', environment = ''us'',
                        index_name = ''tables''\<rparr>],
      databases = [''db1'' \<mapsto> \<lparr>uri = ''sqlite://''\<rparr>],
      conversations =
        [''c1'' \<mapsto> \<lparr>vector_store_id = ''mem'', database_ids = [''db1''],
                    query_results_queue = [], last_update = 0\<rparr>,
         ''c2'' \<mapsto> \<lparr>vector_store_id = ''hosted'', database_ids = [''db1''],
                    query_results_queue = [], last_update = 0\<rparr>],
      current_conversation = ''c1''\<rparr>"

definition demo_world :: world where
  "demo_world =
     \<lparr>session = demo_session, servers = [''sqlite://'' \<mapsto> demo_database],
      pinecone = \<lparr>pc_config = None, pc_indexes = []\<rparr>,
      adapters = [], vector_store_heap = [], agents = [],
      storage_cache = Map.empty, spec_cache = Map.empty, tool_cache = Map.empty,
      agent_cache = Map.empty, trace = []\<rparr>"

text \<open>An adapter for the server, as the constructor leaves it or with a handler stored.\<close>

definition demo_adapter :: "handler_attr \<Rightarrow> adapter" where
  "demo_adapter h =
     \<lparr>adapter_uri = ''sqlite://'', handler = h, table_names = [''t'', ''log''],
      describe = db_describe demo_database\<rparr>"

text \<open>The world with a given descriptor stored under a vector-store id.\<close>

definition with_descriptor :: "string \<Rightarrow> vector_store_props \<Rightarrow> world \<Rightarrow> world" where
  "with_descriptor store_id p w =
     w\<lparr>session := (session w)\<lparr>vector_stores := (vector_stores (session w))(store_id \<mapsto> p)\<rparr>\<rparr>"

text \<open>
  What the caches hold in a world the module has produced. A cached query tool for a
  database id was built from the table documents of the adapter cached for that id and
  carries the fixed name; every cached adapter and agent reference points into its heap.
  \<open>extends w w'\<close> says that \<open>w'\<close> has every cache entry, adapter and agent of \<open>w\<close>,
  the adapters with the tables they reflected.
\<close>

definition cached_tool_ok :: "world \<Rightarrow> string \<Rightarrow> QueryEngineTool \<Rightarrow> bool" where
  "cached_tool_ok w database_id t =
     (case spec_cache w database_id of
        None \<Rightarrow> False
      | Some r \<Rightarrow>
          r < length (adapters w) \<and>
          index_documents (engine_index (query_engine t)) =
            map (table_document (adapters w ! r)) (list_tables (adapters w ! r)) \<and>
          md_name (metadata t) = ''table_query_engine'')"

definition caches_ok :: "world \<Rightarrow> bool" where
  "caches_ok w =
     ((\<forall>d r. spec_cache w d = Some r \<longrightarrow> r < length (adapters w)) \<and>
      (\<forall>s d t. tool_cache w (s, d) = Some t \<longrightarrow> cached_tool_ok w d t) \<and>
      (\<forall>c ts a. agent_cache w (c, ts) = Some a \<longrightarrow> a < length (agents w)))"

definition extends :: "world \<Rightarrow> world \<Rightarrow> bool" where
  "extends w w' =
     (length (adapters w) \<le> length (adapters w') \<and>
      (\<forall>i<length (adapters w).
         table_names (adapters w' ! i) = table_names (adapters w ! i) \<and>
         describe (adapters w' ! i) = describe (adapters w ! i) \<and>
         adapter_uri (adapters w' ! i) = adapter_uri (adapters w ! i)) \<and>
      (\<forall>d r. spec_cache w d = Some r \<longrightarrow> spec_cache w' d = Some r) \<and>
      (\<forall>s d t. tool_cache w (s, d) = Some t \<longrightarrow> tool_cache w' (s, d) = Some t) \<and>
      (\<forall>c ts a. agent_cache w (c, ts) = Some a \<longrightarrow> agent_cache w' (c, ts) = Some a) \<and>
      length (agents w) \<le> length (agents w') \<and>
      (\<forall>i<length (agents w). agents w' ! i = agents w ! i))"

text \<open>The adapter at a reference carries the module's callback as its handler.\<close>

definition registered :: "world \<Rightarrow> nat \<Rightarrow> bool" where
  "registered w r =
     (r < length (adapters w) \<and> handler (adapters w ! r) = Attr (Some database_spec_handler))"


section \<open>load_data\<close>

lemma str_small [simp]:
  "str_int 0 = ''0''" "str_int 1 = ''1''" "str_int 2 = ''2''"
  by (simp_all add: str_int_def str_nat.simps digit_char_def)

lemma demo_reachable [simp]: "reachable demo_world ''sqlite://''"
  by (simp add: reachable_def demo_world_def demo_database_def)

text \<open>
  C1, as the code has it. \<open>load_data(None)\<close> first opens a connection. When that succeeds
  it raises the \<open>ValueError\<close>, having executed no statement and called no handler, and the
  connection is closed on the way out; when connecting fails, the connection error is what
  the caller sees. Nothing but the trace of the world changes.
\<close>

theorem load_data_None:
  "load_data self None w =
     (if reachable w (adapter_uri self)
      then (Inl (ValueError ''A query parameter is necessary to filter the data''),
            w\<lparr>trace := trace w @ [Connect (adapter_uri self), Close (adapter_uri self)]\<rparr>)
      else (Inl (OperationalError (adapter_uri self)),
            w\<lparr>trace := trace w @ [Connect (adapter_uri self)]\<rparr>))"
  by (simp add: load_data_def connect_def close_def emit_def reachable_def split: option.splits)

text \<open>
  C1 as stated fails: with a server up, \<open>load_data(None)\<close> on a world with an empty trace
  leaves a trace that starts with the opening of a connection.
\<close>

theorem load_data_None_opens_connection:
  "trace (snd (load_data (demo_adapter Unset) None demo_world)) =
     [Connect ''sqlite://'', Close ''sqlite://''] \<and>
   trace demo_world = []"
  by (simp add: load_data_def connect_def close_def emit_def demo_adapter_def demo_world_def
        demo_database_def)

text \<open>
  C2. When the connection opens, the query executes and its rows \<open>items\<close> are fetched, and
  the registered handler \<open>f\<close> returns, then \<open>load_data\<close> has called \<open>f\<close> with the query
  and the rows (the call is in the trace and the session is the one \<open>f\<close> returned) and
  returns one document per row, in row order, the text of each being the \<open>str\<close> of the
  row's values joined with a comma and a space.
\<close>

theorem load_data_rows:
  assumes "reachable w (adapter_uri self)"
      and "execute (adapter_uri self) q (emit (Connect (adapter_uri self)) w) =
             (Inr (ReturnsRows items), w2)"
      and "handler self = Attr (Some f)"
      and "f q items (session w2) = Inr s"
  shows "load_data self (Some q) w =
           (Inr (map row_document items),
            w2\<lparr>session := s,
               trace := trace w2 @ [HandlerCall q items, Close (adapter_uri self)]\<rparr>) \<and>
         length (map row_document items) = length items \<and>
         (\<forall>i<length items.
            doc_text (map row_document items ! i) = join '', '' (map str (items ! i)))"
  using assms
  by (auto simp add: load_data_def connect_def close_def emit_def reachable_def fetchall_def
        row_document_def split: option.splits)

theorem load_data_rows_witness:
  "fst (load_data (demo_adapter (Attr (Some database_spec_handler)))
          (Some ''SELECT id, name FROM t'') demo_world) =
     Inr [Document ''1, a'', Document ''2, b'']"
proof -
  let ?A = "demo_adapter (Attr (Some database_spec_handler))"
  let ?q = "''SELECT id, name FROM t''"
  let ?items = "[[SqlInt 1, SqlStr ''a''], [SqlInt 2, SqlStr ''b'']]"
  let ?w2 = "snd (execute (adapter_uri ?A) ?q (emit (Connect (adapter_uri ?A)) demo_world))"
  have r: "reachable demo_world (adapter_uri ?A)"
    by (simp add: demo_adapter_def)
  have e: "execute (adapter_uri ?A) ?q (emit (Connect (adapter_uri ?A)) demo_world) =
             (Inr (ReturnsRows ?items), ?w2)"
    by (simp add: execute_def emit_def demo_adapter_def demo_world_def demo_database_def
          demo_run_def)
  have h: "handler ?A = Attr (Some database_spec_handler)"
    by (simp add: demo_adapter_def)
  have "\<exists>s. database_spec_handler ?q ?items (session ?w2) = Inr s"
    by (simp add: execute_def emit_def demo_adapter_def demo_world_def demo_database_def
          demo_session_def database_spec_handler_def)
  then obtain s where f: "database_spec_handler ?q ?items (session ?w2) = Inr s" ..
  from load_data_rows [OF r e h f] show ?thesis
    by (simp add: row_document_def)
qed

text \<open>
  C7 fails on the code. The adapter that the constructor returns for the database of the
  concrete world has no \<open>handler\<close> attribute, and \<open>load_data\<close> with a query that the
  server answers raises \<open>AttributeError\<close> at the guard, after executing the query.
\<close>

theorem load_data_without_handler:
  "(case get_database_spec ''db1'' demo_world of
      (Inr db_spec, w) \<Rightarrow>
        handler (adapters w ! db_spec) = Unset \<and>
        fst (load_data (adapters w ! db_spec) (Some ''SELECT id, name FROM t'') w) =
          Inl (AttributeError ''handler'')
    | (Inl e, w) \<Rightarrow> False)"
  by (simp add: get_database_spec_def cache_resource_def get_database_spec_body_def
        TrackingDatabaseToolSpec_def load_data_def connect_def execute_def fetchall_def
        close_def emit_def demo_world_def demo_session_def demo_database_def demo_run_def)

section \<open>database_spec_handler\<close>

text \<open>
  C9. When the callback returns, the databases, the vector stores and the pointer to the
  active conversation are as before, every conversation but the active one is as before,
  and the active conversation differs from its old value only in its queue, which has the
  pair of the query and the rows appended.
\<close>

theorem database_spec_handler_frame:
  assumes "database_spec_handler query items s = Inr s'"
  shows "databases s' = databases s \<and> vector_stores s' = vector_stores s \<and>
         current_conversation s' = current_conversation s \<and>
         (\<forall>cid. cid \<noteq> current_conversation s \<longrightarrow> conversations s' cid = conversations s cid) \<and>
         (\<exists>c. conversations s (current_conversation s) = Some c \<and>
              conversations s' (current_conversation s) =
                Some (c\<lparr>query_results_queue := query_results_queue c @ [(query, items)]\<rparr>))"
  using assms
  by (auto simp add: database_spec_handler_def split: option.splits)

theorem database_spec_handler_frame_witness:
  "(\<exists>s'. database_spec_handler ''q'' [[SqlInt 1]] demo_session = Inr s' \<and>
     databases s' = databases demo_session \<and>
     conversations s' ''c2'' = conversations demo_session ''c2'' \<and>
     map_option query_results_queue (conversations s' ''c1'') = Some [(''q'', [[SqlInt 1]])])"
proof -
  have "\<exists>s'. database_spec_handler ''q'' [[SqlInt 1]] demo_session = Inr s'"
    by (simp add: database_spec_handler_def demo_session_def)
  then obtain s' where h: "database_spec_handler ''q'' [[SqlInt 1]] demo_session = Inr s'" ..
  from database_spec_handler_frame [OF h] h show ?thesis
    by (auto simp add: demo_session_def)
qed

section \<open>get_storage_context\<close>

lemmas storage_defs = get_storage_context_def cache_resource_def get_storage_context_body_def
  new_vector_store_def pinecone_init_def pinecone_list_indexes_def pinecone_create_index_def
  pinecone_Index_def emit_def

lemma get_storage_context_body_in_memory:
  assumes "vector_stores (session w) store_id = Some p"
      and "get_vector_store_type p = InMemory"
  shows "get_storage_context_body store_id w =
           (Inr (StorageContext (length (vector_store_heap w))),
            w\<lparr>vector_store_heap := vector_store_heap w @ [SimpleVectorStore []]\<rparr>)"
  using assms by (simp add: get_storage_context_body_def new_vector_store_def)

text \<open>
  C10. Take an in-memory descriptor \<open>p\<close> and any descriptor \<open>p'\<close> that differs from it
  only in the API key, the environment and the index name, and call
  \<open>get_storage_context\<close> for the same id in two worlds that differ only in which of the
  two the session holds. Both calls return the same storage context and leave the same
  heap of vector stores, and neither changes the hosted vector database or adds to the
  trace of external calls. When the id is not cached, the context wraps a new vector store
  object, which is an in-memory store holding no documents.
\<close>

theorem in_memory_ignores_hosted_fields:
  assumes "get_vector_store_type p = InMemory"
      and "p' = p\<lparr>api_key := k, environment := e, index_name := n\<rparr>"
      and "r = get_storage_context store_id (with_descriptor store_id p w)"
      and "r' = get_storage_context store_id (with_descriptor store_id p' w)"
  shows "fst r = fst r' \<and>
         vector_store_heap (snd r) = vector_store_heap (snd r') \<and>
         pinecone (snd r) = pinecone w \<and> pinecone (snd r') = pinecone w \<and>
         trace (snd r) = trace w \<and> trace (snd r') = trace w \<and>
         (storage_cache w store_id = None \<longrightarrow>
            fst r = Inr (StorageContext (length (vector_store_heap w))) \<and>
            vector_store_heap (snd r) = vector_store_heap w @ [SimpleVectorStore []])"
proof -
  have t: "get_vector_store_type p' = InMemory"
    using assms(1,2) by (simp add: get_vector_store_type_def)
  have b: "get_storage_context_body store_id (with_descriptor store_id p w) =
           (Inr (StorageContext (length (vector_store_heap w))),
            (with_descriptor store_id p w)
              \<lparr>vector_store_heap := vector_store_heap w @ [SimpleVectorStore []]\<rparr>)"
    using get_storage_context_body_in_memory [of "with_descriptor store_id p w" store_id p]
      assms(1)
    by (simp add: with_descriptor_def)
  have b': "get_storage_context_body store_id (with_descriptor store_id p' w) =
           (Inr (StorageContext (length (vector_store_heap w))),
            (with_descriptor store_id p' w)
              \<lparr>vector_store_heap := vector_store_heap w @ [SimpleVectorStore []]\<rparr>)"
    using get_storage_context_body_in_memory [of "with_descriptor store_id p' w" store_id p'] t
    by (simp add: with_descriptor_def)
  show ?thesis
    using b b' assms(3,4)
    by (cases "storage_cache w store_id")
       (simp_all add: get_storage_context_def cache_resource_def with_descriptor_def)
qed

theorem in_memory_ignores_hosted_fields_witness:
  "fst (get_storage_context ''mem''
          (with_descriptor ''mem''
             \<lparr>store_type = InMemory, api_key = [], environment = [], index_name = []\<rparr>
             demo_world)) =
     Inr (StorageContext 0) \<and>
   fst (get_storage_context ''mem''
          (with_descriptor ''mem''
             \<lparr>store_type = InMemory, api_key = ''key'', environment = ''us'',
                index_name = ''tables''\<rparr>
             demo_world)) =
     Inr (StorageContext 0) \<and>
   vector_store_heap (snd (get_storage_context ''mem''
          (with_descriptor ''mem''
             \<lparr>store_type = InMemory, api_key = ''key'', environment = ''us'',
                index_name = ''tables''\<rparr>
             demo_world))) =
     [SimpleVectorStore []]"
proof -
  let ?p = "\<lparr>store_type = InMemory, api_key = [], environment = [], index_name = []\<rparr>"
  have t: "get_vector_store_type ?p = InMemory"
    by (simp add: get_vector_store_type_def)
  note T = in_memory_ignores_hosted_fields
    [where k = "''key''" and e = "''us''" and n = "''tables''" and store_id = "''mem''"
       and w = demo_world, OF t refl refl refl]
  have c: "storage_cache demo_world ''mem'' = None" and h: "vector_store_heap demo_world = []"
    by (simp_all add: demo_world_def)
  let ?r = "get_storage_context ''mem'' (with_descriptor ''mem'' ?p demo_world)"
  let ?r' = "get_storage_context ''mem''
               (with_descriptor ''mem''
                  (?p\<lparr>api_key := ''key'', environment := ''us'', index_name := ''tables''\<rparr>)
                  demo_world)"
  from T have 2: "fst ?r = fst ?r'"
    and 4: "vector_store_heap (snd ?r) = vector_store_heap (snd ?r')"
    by blast+
  from T c have "fst ?r = Inr (StorageContext (length (vector_store_heap demo_world))) \<and>
      vector_store_heap (snd ?r) = vector_store_heap demo_world @ [SimpleVectorStore []]"
    by blast
  with h have 1: "fst ?r = Inr (StorageContext 0)"
    and 3: "vector_store_heap (snd ?r) = [SimpleVectorStore []]"
    by simp_all
  from 1 2 have 5: "fst ?r' = Inr (StorageContext 0)" by simp
  from 3 4 have 6: "vector_store_heap (snd ?r') = [SimpleVectorStore []]" by simp
  from 1 5 6 show ?thesis by simp
qed

text \<open>
  C6. Take a hosted descriptor stored under an id. When the id is not in the cache,
  \<open>get_storage_context\<close> configures the client, lists the indexes, asks the service to
  create the named index with dimension 1536 and the cosine metric exactly when the name is
  not among those listed, then binds to the named index, and returns and caches a context
  on a new client object for it; a second call with the id then returns the same context
  and leaves the world as it is. When the id is in the cache, the call returns the cached
  context and does nothing else: it lists, creates and binds nothing. The body itself, run
  once more after it has run, creates nothing and leaves the hosted database as it is.
\<close>

theorem hosted_index_created_if_absent:
  assumes "vector_stores (session w) store_id = Some p"
      and "get_vector_store_type p = PineconeDB"
  shows "(storage_cache w store_id = None \<longrightarrow>
           (\<exists>w'. get_storage_context store_id w =
                   (Inr (StorageContext (length (vector_store_heap w))), w') \<and>
              trace w' = trace w @ [PineconeInit (api_key p) (environment p), ListIndexes] @
                (if index_name p \<in> set (map fst (pc_indexes (pinecone w))) then []
                 else [CreateIndex (index_name p) 1536 ''cosine'']) @
                [BindIndex (index_name p)] \<and>
              pc_indexes (pinecone w') =
                (if index_name p \<in> set (map fst (pc_indexes (pinecone w)))
                 then pc_indexes (pinecone w)
                 else pc_indexes (pinecone w) @ [(index_name p, 1536, ''cosine'')]) \<and>
              vector_store_heap w' =
                vector_store_heap w @ [PineconeVectorStore (index_name p)] \<and>
              storage_cache w' =
                (storage_cache w)(store_id \<mapsto> StorageContext (length (vector_store_heap w))) \<and>
              get_storage_context store_id w' =
                (Inr (StorageContext (length (vector_store_heap w))), w'))) \<and>
         (\<forall>sc. storage_cache w store_id = Some sc \<longrightarrow>
            get_storage_context store_id w = (Inr sc, w)) \<and>
         (\<exists>w'. get_storage_context_body store_id w =
                (Inr (StorageContext (length (vector_store_heap w))), w') \<and>
            trace w' = trace w @ [PineconeInit (api_key p) (environment p), ListIndexes] @
              (if index_name p \<in> set (map fst (pc_indexes (pinecone w))) then []
               else [CreateIndex (index_name p) 1536 ''cosine'']) @ [BindIndex (index_name p)] \<and>
            pc_indexes (pinecone w') =
              (if index_name p \<in> set (map fst (pc_indexes (pinecone w)))
               then pc_indexes (pinecone w)
               else pc_indexes (pinecone w) @ [(index_name p, 1536, ''cosine'')]) \<and>
            vector_store_heap w' = vector_store_heap w @ [PineconeVectorStore (index_name p)] \<and>
            (\<exists>w''. get_storage_context_body store_id w' =
                 (Inr (StorageContext (length (vector_store_heap w'))), w'') \<and>
               pinecone w'' = pinecone w' \<and>
               trace w'' = trace w' @ [PineconeInit (api_key p) (environment p), ListIndexes,
                                       BindIndex (index_name p)]))"
proof -
  have body: "\<exists>w'. get_storage_context_body store_id w =
                (Inr (StorageContext (length (vector_store_heap w))), w') \<and>
           trace w' = trace w @ [PineconeInit (api_key p) (environment p), ListIndexes] @
             (if index_name p \<in> set (map fst (pc_indexes (pinecone w))) then []
              else [CreateIndex (index_name p) 1536 ''cosine'']) @ [BindIndex (index_name p)] \<and>
           pc_indexes (pinecone w') =
             (if index_name p \<in> set (map fst (pc_indexes (pinecone w)))
              then pc_indexes (pinecone w)
              else pc_indexes (pinecone w) @ [(index_name p, 1536, ''cosine'')]) \<and>
           vector_store_heap w' = vector_store_heap w @ [PineconeVectorStore (index_name p)] \<and>
           (\<exists>w''. get_storage_context_body store_id w' =
                (Inr (StorageContext (length (vector_store_heap w'))), w'') \<and>
              pinecone w'' = pinecone w' \<and>
              trace w'' = trace w' @ [PineconeInit (api_key p) (environment p), ListIndexes,
                                      BindIndex (index_name p)])"
    using assms
    by (auto simp add: get_storage_context_body_def new_vector_store_def pinecone_init_def
          pinecone_list_indexes_def pinecone_create_index_def pinecone_Index_def emit_def)
  have hit: "\<forall>sc. storage_cache w store_id = Some sc \<longrightarrow>
            get_storage_context store_id w = (Inr sc, w)"
    by (simp add: get_storage_context_def cache_resource_def)
  have miss: "storage_cache w store_id = None \<longrightarrow>
           (\<exists>w'. get_storage_context store_id w =
                   (Inr (StorageContext (length (vector_store_heap w))), w') \<and>
              trace w' = trace w @ [PineconeInit (api_key p) (environment p), ListIndexes] @
                (if index_name p \<in> set (map fst (pc_indexes (pinecone w))) then []
                 else [CreateIndex (index_name p) 1536 ''cosine'']) @
                [BindIndex (index_name p)] \<and>
              pc_indexes (pinecone w') =
                (if index_name p \<in> set (map fst (pc_indexes (pinecone w)))
                 then pc_indexes (pinecone w)
                 else pc_indexes (pinecone w) @ [(index_name p, 1536, ''cosine'')]) \<and>
              vector_store_heap w' =
                vector_store_heap w @ [PineconeVectorStore (index_name p)] \<and>
              storage_cache w' =
                (storage_cache w)(store_id \<mapsto> StorageContext (length (vector_store_heap w))) \<and>
              get_storage_context store_id w' =
                (Inr (StorageContext (length (vector_store_heap w))), w'))"
    using assms
    by (auto simp add: get_storage_context_def cache_resource_def get_storage_context_body_def
          new_vector_store_def pinecone_init_def
          pinecone_list_indexes_def pinecone_create_index_def pinecone_Index_def emit_def)
  from miss hit body show ?thesis by blast
qed

theorem hosted_index_created_if_absent_witness:
  "\<exists>w'. get_storage_context ''hosted'' demo_world = (Inr (StorageContext 0), w') \<and>
      trace w' = [PineconeInit ''key'' ''us'', ListIndexes,
                  CreateIndex ''tables'' 1536 ''cosine'', BindIndex ''tables''] \<and>
      pc_indexes (pinecone w') = [(''tables'', 1536, ''cosine'')] \<and>
      vector_store_heap w' = [PineconeVectorStore ''tables''] \<and>
      get_storage_context ''hosted'' w' = (Inr (StorageContext 0), w')"
proof -
  let ?p = "\<lparr>store_type = PineconeDB, api_key = ''key'', environment = ''us'',
             index_name = ''tables''\<rparr>"
  have s: "vector_stores (session demo_world) ''hosted'' = Some ?p"
    by (simp add: demo_world_def demo_session_def)
  have t: "get_vector_store_type ?p = PineconeDB"
    by (simp add: get_vector_store_type_def)
  have n: "storage_cache demo_world ''hosted'' = None"
    by (simp add: demo_world_def)
  from hosted_index_created_if_absent [OF s t] n
  have "\<exists>w'. get_storage_context ''hosted'' demo_world =
                   (Inr (StorageContext (length (vector_store_heap demo_world))), w') \<and>
              trace w' = trace demo_world @ [PineconeInit (api_key ?p) (environment ?p), ListIndexes] @
                (if index_name ?p \<in> set (map fst (pc_indexes (pinecone demo_world))) then []
                 else [CreateIndex (index_name ?p) 1536 ''cosine'']) @
                [BindIndex (index_name ?p)] \<and>
              pc_indexes (pinecone w') =
                (if index_name ?p \<in> set (map fst (pc_indexes (pinecone demo_world)))
                 then pc_indexes (pinecone demo_world)
                 else pc_indexes (pinecone demo_world) @ [(index_name ?p, 1536, ''cosine'')]) \<and>
              vector_store_heap w' =
                vector_store_heap demo_world @ [PineconeVectorStore (index_name ?p)] \<and>
              storage_cache w' =
                (storage_cache demo_world)(''hosted'' \<mapsto> StorageContext (length (vector_store_heap demo_world))) \<and>
              get_storage_context ''hosted'' w' =
                (Inr (StorageContext (length (vector_store_heap demo_world))), w')"
    by blast
  then show ?thesis
    by (auto simp add: demo_world_def)
qed

section \<open>The caches\<close>

lemma extends_refl [simp]: "extends w w"
  by (simp add: extends_def)

lemma extends_trans:
  assumes a: "extends w1 w2" and b: "extends w2 w3"
  shows "extends w1 w3"
proof -
  have l12: "length (adapters w1) \<le> length (adapters w2)"
    and l23: "length (adapters w2) \<le> length (adapters w3)"
    and g12: "length (agents w1) \<le> length (agents w2)"
    and g23: "length (agents w2) \<le> length (agents w3)"
    using a b by (simp_all add: extends_def)
  have ad: "table_names (adapters w3 ! i) = table_names (adapters w1 ! i) \<and>
            describe (adapters w3 ! i) = describe (adapters w1 ! i) \<and>
            adapter_uri (adapters w3 ! i) = adapter_uri (adapters w1 ! i)"
    if "i < length (adapters w1)" for i
  proof -
    from that l12 have i2: "i < length (adapters w2)" by simp
    from a that have
      "table_names (adapters w2 ! i) = table_names (adapters w1 ! i) \<and>
       describe (adapters w2 ! i) = describe (adapters w1 ! i) \<and>
       adapter_uri (adapters w2 ! i) = adapter_uri (adapters w1 ! i)"
      by (simp add: extends_def)
    moreover from b i2 have
      "table_names (adapters w3 ! i) = table_names (adapters w2 ! i) \<and>
       describe (adapters w3 ! i) = describe (adapters w2 ! i) \<and>
       adapter_uri (adapters w3 ! i) = adapter_uri (adapters w2 ! i)"
      by (simp add: extends_def)
    ultimately show ?thesis by simp
  qed
  have ag: "agents w3 ! i = agents w1 ! i" if "i < length (agents w1)" for i
  proof -
    from that g12 have i2: "i < length (agents w2)" by simp
    from a that have "agents w2 ! i = agents w1 ! i" by (simp add: extends_def)
    moreover from b i2 have "agents w3 ! i = agents w2 ! i" by (simp add: extends_def)
    ultimately show ?thesis by simp
  qed
  have sc: "spec_cache w3 d = Some r" if "spec_cache w1 d = Some r" for d r
  proof -
    from a that have "spec_cache w2 d = Some r" by (simp add: extends_def)
    with b show ?thesis by (simp add: extends_def)
  qed
  have tc: "tool_cache w3 (s, d) = Some t" if "tool_cache w1 (s, d) = Some t" for s d t
  proof -
    from a that have "tool_cache w2 (s, d) = Some t" by (simp add: extends_def)
    with b show ?thesis by (simp add: extends_def)
  qed
  have ac: "agent_cache w3 (c, ts) = Some x" if "agent_cache w1 (c, ts) = Some x" for c ts x
  proof -
    from a that have "agent_cache w2 (c, ts) = Some x" by (simp add: extends_def)
    with b show ?thesis by (simp add: extends_def)
  qed
  from l12 l23 g12 g23 ad ag sc tc ac show ?thesis
    unfolding extends_def by (intro conjI allI impI) simp_all
qed

lemma cached_tool_ok_extends:
  assumes "cached_tool_ok w d t" and "extends w w'"
  shows "cached_tool_ok w' d t"
proof -
  from assms(1) obtain r where r: "spec_cache w d = Some r" "r < length (adapters w)"
    and docs: "index_documents (engine_index (query_engine t)) =
            map (table_document (adapters w ! r)) (list_tables (adapters w ! r))"
    and nm: "md_name (metadata t) = ''table_query_engine''"
    by (auto simp add: cached_tool_ok_def split: option.splits)
  from assms(2) r have r': "spec_cache w' d = Some r" "r < length (adapters w')"
    and same: "table_names (adapters w' ! r) = table_names (adapters w ! r)"
              "describe (adapters w' ! r) = describe (adapters w ! r)"
    by (auto simp add: extends_def)
  from same have "table_document (adapters w' ! r) = table_document (adapters w ! r)"
    by (auto simp add: table_document_def describe_tables_def fun_eq_iff)
  with same docs nm r' show ?thesis
    by (simp add: cached_tool_ok_def list_tables_def)
qed

lemma caches_ok_step:
  assumes "caches_ok w" and "extends w w'"
      and "\<And>d r. spec_cache w' d = Some r \<Longrightarrow> spec_cache w d = Some r \<or> r < length (adapters w')"
      and "\<And>s d t. tool_cache w' (s, d) = Some t \<Longrightarrow>
             tool_cache w (s, d) = Some t \<or> cached_tool_ok w' d t"
      and "\<And>c ts a. agent_cache w' (c, ts) = Some a \<Longrightarrow>
             agent_cache w (c, ts) = Some a \<or> a < length (agents w')"
  shows "caches_ok w'"
  unfolding caches_ok_def
proof (intro conjI allI impI)
  fix d r assume "spec_cache w' d = Some r"
  with assms(3) have "spec_cache w d = Some r \<or> r < length (adapters w')" by blast
  moreover have "spec_cache w d = Some r \<Longrightarrow> r < length (adapters w)"
    using assms(1) by (simp add: caches_ok_def)
  moreover have "length (adapters w) \<le> length (adapters w')"
    using assms(2) by (simp add: extends_def)
  ultimately show "r < length (adapters w')"
    by fastforce
next
  fix s d t assume "tool_cache w' (s, d) = Some t"
  with assms(4) have "tool_cache w (s, d) = Some t \<or> cached_tool_ok w' d t" by blast
  moreover have "tool_cache w (s, d) = Some t \<Longrightarrow> cached_tool_ok w d t"
    using assms(1) by (simp add: caches_ok_def)
  ultimately show "cached_tool_ok w' d t"
    using cached_tool_ok_extends [OF _ assms(2)] by blast
next
  fix c ts a assume "agent_cache w' (c, ts) = Some a"
  with assms(5) have "agent_cache w (c, ts) = Some a \<or> a < length (agents w')" by blast
  moreover have "agent_cache w (c, ts) = Some a \<Longrightarrow> a < length (agents w)"
    using assms(1) by (simp add: caches_ok_def)
  moreover have "length (agents w) \<le> length (agents w')"
    using assms(2) by (simp add: extends_def)
  ultimately show "a < length (agents w')"
    by fastforce
qed



lemmas spec_defs = get_database_spec_def cache_resource_def get_database_spec_body_def
  TrackingDatabaseToolSpec_def emit_def

lemma get_database_spec_hit:
  "spec_cache w d = Some r \<Longrightarrow> get_database_spec d w = (Inr r, w)"
  by (simp add: get_database_spec_def cache_resource_def)

lemma get_database_spec_fields:
  "tool_cache (snd (get_database_spec d w)) = tool_cache w"
  "agent_cache (snd (get_database_spec d w)) = agent_cache w"
  "agents (snd (get_database_spec d w)) = agents w"
  "session (snd (get_database_spec d w)) = session w"
  "storage_cache (snd (get_database_spec d w)) = storage_cache w"
  "vector_store_heap (snd (get_database_spec d w)) = vector_store_heap w"
  "pinecone (snd (get_database_spec d w)) = pinecone w"
  by (simp_all add: spec_defs split: option.splits)

lemma get_database_spec_miss:
  assumes "spec_cache w d = None" and "get_database_spec d w = (Inr r, w')"
  shows "r = length (adapters w) \<and>
         (\<exists>a. adapters w' = adapters w @ [a] \<and> handler a = Unset \<and>
              trace w' = trace w @ [Construct (adapter_uri a)]) \<and>
         spec_cache w' = (spec_cache w)(d \<mapsto> r)"
  using assms
  by (auto simp add: spec_defs split: option.splits if_splits)

lemma get_database_spec_result:
  assumes "get_database_spec d w = (Inr r, w')"
  shows "spec_cache w' d = Some r"
proof (cases "spec_cache w d")
  case None
  from get_database_spec_miss [OF None assms] show ?thesis by simp
next
  case (Some r0)
  from get_database_spec_hit [OF Some] assms Some show ?thesis by simp
qed

lemma get_database_spec_adapters:
  "\<exists>as. adapters (snd (get_database_spec d w)) = adapters w @ as"
  by (simp add: spec_defs split: option.splits)

lemma get_database_spec_cache:
  assumes "spec_cache (snd (get_database_spec d w)) d' = Some r"
  shows "spec_cache w d' = Some r \<or> r < length (adapters (snd (get_database_spec d w)))"
  using assms
  by (auto simp add: spec_defs split: option.splits if_splits)

lemma get_database_spec_cache_mono:
  assumes "spec_cache w d' = Some r"
  shows "spec_cache (snd (get_database_spec d w)) d' = Some r"
  using assms
  by (auto simp add: spec_defs split: option.splits if_splits)

lemma get_database_spec_extends: "extends w (snd (get_database_spec d w))"
proof -
  obtain as where as: "adapters (snd (get_database_spec d w)) = adapters w @ as"
    using get_database_spec_adapters by blast
  show ?thesis
    unfolding extends_def
    by (simp add: get_database_spec_fields as nth_append get_database_spec_cache_mono)
qed

lemma get_database_spec_ok:
  assumes "caches_ok w"
  shows "caches_ok (snd (get_database_spec d w))"
  using assms get_database_spec_extends [of w d]
proof (rule caches_ok_step)
  fix d' r assume "spec_cache (snd (get_database_spec d w)) d' = Some r"
  then show "spec_cache w d' = Some r \<or> r < length (adapters (snd (get_database_spec d w)))"
    by (rule get_database_spec_cache)
next
  fix s d' t assume "tool_cache (snd (get_database_spec d w)) (s, d') = Some t"
  then show "tool_cache w (s, d') = Some t \<or> cached_tool_ok (snd (get_database_spec d w)) d' t"
    by (simp add: get_database_spec_fields)
next
  fix c ts a assume "agent_cache (snd (get_database_spec d w)) (c, ts) = Some a"
  then show "agent_cache w (c, ts) = Some a \<or> a < length (agents (snd (get_database_spec d w)))"
    by (simp add: get_database_spec_fields)
qed

lemma get_storage_context_fields:
  "adapters (snd (get_storage_context s w)) = adapters w"
  "spec_cache (snd (get_storage_context s w)) = spec_cache w"
  "tool_cache (snd (get_storage_context s w)) = tool_cache w"
  "agent_cache (snd (get_storage_context s w)) = agent_cache w"
  "agents (snd (get_storage_context s w)) = agents w"
  "session (snd (get_storage_context s w)) = session w"
  by (simp_all add: storage_defs split: option.splits VectorStoreType.splits)

lemma from_documents_fields:
  "adapters (snd (from_documents ds sc w)) = adapters w"
  "spec_cache (snd (from_documents ds sc w)) = spec_cache w"
  "tool_cache (snd (from_documents ds sc w)) = tool_cache w"
  "agent_cache (snd (from_documents ds sc w)) = agent_cache w"
  "agents (snd (from_documents ds sc w)) = agents w"
  "session (snd (from_documents ds sc w)) = session w"
  "fst (from_documents ds sc w) = \<lparr>index_documents = ds, index_storage = sc\<rparr>"
  by (simp_all add: from_documents_def emit_def split: vector_store.splits)


lemma cache_resource_unfold:
  "cache_resource lookup store f k w =
     (case lookup w k of
        Some v \<Rightarrow> (Inr v, w)
      | None \<Rightarrow>
          (case fst (f k w) of
             Inl e \<Rightarrow> (Inl e, snd (f k w))
           | Inr v \<Rightarrow> (Inr v, store k v (snd (f k w)))))"
  by (simp add: cache_resource_def split: option.splits prod.splits sum.splits)

lemma get_query_tool_body_unfold:
  "get_query_tool_body (s, d) w =
     (case fst (get_database_spec d w) of
        Inl e \<Rightarrow> (Inl e, snd (get_database_spec d w))
      | Inr r \<Rightarrow>
          (case fst (get_storage_context s (snd (get_database_spec d w))) of
             Inl e \<Rightarrow> (Inl e, snd (get_storage_context s (snd (get_database_spec d w))))
           | Inr sc \<Rightarrow>
               (Inr \<lparr>query_engine = RetrieverQueryEngine
                       \<lparr>index_documents =
                          map (table_document (adapters (snd (get_database_spec d w)) ! r))
                            (list_tables (adapters (snd (get_database_spec d w)) ! r)),
                        index_storage = sc\<rparr>,
                     metadata = \<lparr>md_name = ''table_query_engine'',
                       md_description = ''Contains table descriptions for the database''\<rparr>\<rparr>,
                snd (from_documents
                       (map (table_document (adapters (snd (get_database_spec d w)) ! r))
                          (list_tables (adapters (snd (get_database_spec d w)) ! r)))
                       sc (snd (get_storage_context s (snd (get_database_spec d w))))))))"
  by (simp add: get_query_tool_body_def as_query_engine_def from_documents_def
      split: prod.splits sum.splits)

lemma extends_same:
  assumes "adapters w' = adapters w" "spec_cache w' = spec_cache w"
    "tool_cache w' = tool_cache w" "agent_cache w' = agent_cache w" "agents w' = agents w"
  shows "extends w w'"
  using assms by (simp add: extends_def)

lemma get_query_tool_body_extends:
  "extends w (snd (get_query_tool_body (s, d) w))"
proof -
  let ?w1 = "snd (get_database_spec d w)"
  let ?w2 = "snd (get_storage_context s ?w1)"
  have e1: "extends w ?w1" by (rule get_database_spec_extends)
  have "extends ?w1 ?w2" by (rule extends_same) (simp_all add: get_storage_context_fields)
  with e1 have e2: "extends w ?w2" by (rule extends_trans)
  have e3: "extends w (snd (from_documents ds sc ?w2))" for ds sc
    by (rule extends_trans [OF e2], rule extends_same) (simp_all add: from_documents_fields)
  show ?thesis
    using e1 e2 e3 by (simp add: get_query_tool_body_unfold split: sum.splits)
qed

lemma get_query_tool_body_fields:
  "tool_cache (snd (get_query_tool_body (s, d) w)) = tool_cache w"
  "agent_cache (snd (get_query_tool_body (s, d) w)) = agent_cache w"
  "agents (snd (get_query_tool_body (s, d) w)) = agents w"
  "session (snd (get_query_tool_body (s, d) w)) = session w"
  by (simp_all add: get_query_tool_body_unfold from_documents_fields get_storage_context_fields
        get_database_spec_fields split: sum.splits)

lemma get_query_tool_body_tool_ok:
  assumes ok: "caches_ok w" and res: "fst (get_query_tool_body (s, d) w) = Inr t"
  shows "cached_tool_ok (snd (get_query_tool_body (s, d) w)) d t"
proof -
  let ?w1 = "snd (get_database_spec d w)"
  let ?w2 = "snd (get_storage_context s ?w1)"
  from res obtain r where r: "fst (get_database_spec d w) = Inr r"
    by (auto simp add: get_query_tool_body_unfold split: sum.splits)
  from res r obtain sc where sc: "fst (get_storage_context s ?w1) = Inr sc"
    by (auto simp add: get_query_tool_body_unfold split: sum.splits)
  let ?docs = "map (table_document (adapters ?w1 ! r)) (list_tables (adapters ?w1 ! r))"
  let ?w3 = "snd (from_documents ?docs sc ?w2)"
  from res r sc have t: "index_documents (engine_index (query_engine t)) = ?docs"
      "md_name (metadata t) = ''table_query_engine''"
    and w3: "snd (get_query_tool_body (s, d) w) = ?w3"
    by (auto simp add: get_query_tool_body_unfold)
  from r have "get_database_spec d w = (Inr r, ?w1)"
    by (metis prod.collapse)
  then have c: "spec_cache ?w1 d = Some r" by (rule get_database_spec_result)
  from ok have "caches_ok ?w1" by (rule get_database_spec_ok)
  with c have lt: "r < length (adapters ?w1)" by (simp add: caches_ok_def)
  have "adapters ?w3 = adapters ?w1" "spec_cache ?w3 = spec_cache ?w1"
    by (simp_all add: from_documents_fields get_storage_context_fields)
  with c lt t w3 show ?thesis
    by (simp add: cached_tool_ok_def)
qed

lemma cached_tool_ok_tool_cache [simp]:
  "cached_tool_ok (w\<lparr>tool_cache := c\<rparr>) d t = cached_tool_ok w d t"
  by (simp add: cached_tool_ok_def split: option.splits)

lemma extends_store_tool:
  assumes "extends w x" and "tool_cache w k = None"
  shows "extends w (x\<lparr>tool_cache := (tool_cache x)(k \<mapsto> t)\<rparr>)"
  using assms unfolding extends_def by auto

lemma get_query_tool_unfold:
  "get_query_tool s d w =
     (case tool_cache w (s, d) of
        Some t \<Rightarrow> (Inr t, w)
      | None \<Rightarrow>
          (case fst (get_query_tool_body (s, d) w) of
             Inl e \<Rightarrow> (Inl e, snd (get_query_tool_body (s, d) w))
           | Inr t \<Rightarrow>
               (Inr t, (snd (get_query_tool_body (s, d) w))
                  \<lparr>tool_cache := (tool_cache (snd (get_query_tool_body (s, d) w)))((s, d) \<mapsto> t)\<rparr>)))"
  by (simp add: get_query_tool_def cache_resource_unfold)

lemma get_query_tool_extends: "extends w (snd (get_query_tool s d w))"
  using get_query_tool_body_extends [of w s d]
  by (simp add: get_query_tool_unfold extends_store_tool split: option.splits sum.splits)

lemma get_query_tool_fields:
  "agent_cache (snd (get_query_tool s d w)) = agent_cache w"
  "agents (snd (get_query_tool s d w)) = agents w"
  "session (snd (get_query_tool s d w)) = session w"
  by (simp_all add: get_query_tool_unfold get_query_tool_body_fields
        split: option.splits sum.splits)

lemma get_query_tool_tool_ok:
  assumes ok: "caches_ok w" and res: "get_query_tool s d w = (Inr t, w')"
  shows "cached_tool_ok w' d t"
proof (cases "tool_cache w (s, d)")
  case (Some t0)
  with res have "t0 = t" "w' = w" by (simp_all add: get_query_tool_unfold)
  with Some ok show ?thesis by (simp add: caches_ok_def)
next
  case None
  with res have f: "fst (get_query_tool_body (s, d) w) = Inr t"
    and w': "w' = (snd (get_query_tool_body (s, d) w))
                 \<lparr>tool_cache := (tool_cache (snd (get_query_tool_body (s, d) w)))((s, d) \<mapsto> t)\<rparr>"
    by (auto simp add: get_query_tool_unfold split: sum.splits)
  from get_query_tool_body_tool_ok [OF ok f] w' show ?thesis by simp
qed


lemma get_query_tool_cache:
  assumes "tool_cache (snd (get_query_tool s d w)) (s', d') = Some t"
  shows "tool_cache w (s', d') = Some t \<or>
         ((s', d') = (s, d) \<and> fst (get_query_tool s d w) = Inr t)"
  using assms
  by (auto simp add: get_query_tool_unfold get_query_tool_body_fields
      split: option.splits sum.splits if_splits)

lemma get_query_tool_spec:
  "snd (get_query_tool s d w) = w \<or>
   (spec_cache (snd (get_query_tool s d w)) = spec_cache (snd (get_database_spec d w)) \<and>
    adapters (snd (get_query_tool s d w)) = adapters (snd (get_database_spec d w)))"
  by (simp add: get_query_tool_unfold get_query_tool_body_unfold from_documents_fields
        get_storage_context_fields split: option.splits sum.splits)

lemma get_query_tool_ok:
  assumes ok: "caches_ok w"
  shows "caches_ok (snd (get_query_tool s d w))"
  using ok get_query_tool_extends [of w s d]
proof (rule caches_ok_step)
  fix d' r assume a: "spec_cache (snd (get_query_tool s d w)) d' = Some r"
  from get_query_tool_spec [of s d w]
  show "spec_cache w d' = Some r \<or> r < length (adapters (snd (get_query_tool s d w)))"
  proof
    assume "snd (get_query_tool s d w) = w"
    with a show ?thesis by simp
  next
    assume "spec_cache (snd (get_query_tool s d w)) = spec_cache (snd (get_database_spec d w)) \<and>
            adapters (snd (get_query_tool s d w)) = adapters (snd (get_database_spec d w))"
    with a get_database_spec_cache [of d w d' r] show ?thesis by simp
  qed
next
  fix s' d' t assume a: "tool_cache (snd (get_query_tool s d w)) (s', d') = Some t"
  show "tool_cache w (s', d') = Some t \<or> cached_tool_ok (snd (get_query_tool s d w)) d' t"
  proof (cases "tool_cache w (s', d') = Some t")
    case True then show ?thesis by simp
  next
    case False
    with get_query_tool_cache [OF a] have k: "s' = s" "d' = d"
      and f: "fst (get_query_tool s d w) = Inr t" by simp_all
    from f have "get_query_tool s d w = (Inr t, snd (get_query_tool s d w))"
      by (metis prod.collapse)
    from get_query_tool_tool_ok [OF ok this] k show ?thesis by simp
  qed
next
  fix c ts a assume "agent_cache (snd (get_query_tool s d w)) (c, ts) = Some a"
  then show "agent_cache w (c, ts) = Some a \<or> a < length (agents (snd (get_query_tool s d w)))"
    by (simp add: get_query_tool_fields)
qed

subsection \<open>Setting the handler\<close>

lemma set_handler_at_fields:
  "spec_cache (set_handler_at r f w) = spec_cache w"
  "tool_cache (set_handler_at r f w) = tool_cache w"
  "agent_cache (set_handler_at r f w) = agent_cache w"
  "agents (set_handler_at r f w) = agents w"
  "session (set_handler_at r f w) = session w"
  "length (adapters (set_handler_at r f w)) = length (adapters w)"
  by (simp_all add: set_handler_at_def)

lemma set_handler_at_nth:
  "i < length (adapters w) \<Longrightarrow>
     table_names (adapters (set_handler_at r f w) ! i) = table_names (adapters w ! i) \<and>
     describe (adapters (set_handler_at r f w) ! i) = describe (adapters w ! i) \<and>
     adapter_uri (adapters (set_handler_at r f w) ! i) = adapter_uri (adapters w ! i)"
  by (cases "i = r") (simp_all add: set_handler_at_def set_handler_def)

lemma set_handler_at_extends: "extends w (set_handler_at r f w)"
  unfolding extends_def
  by (simp add: set_handler_at_fields set_handler_at_nth)

lemma set_handler_at_ok:
  assumes "caches_ok w"
  shows "caches_ok (set_handler_at r f w)"
  using assms set_handler_at_extends [of w r f]
  by (rule caches_ok_step) (simp_all add: set_handler_at_fields)

subsection \<open>The tools of a conversation\<close>

lemma create_tools_Cons:
  "create_tools s (d # ds) tools w =
     (case fst (get_database_spec d w) of
        Inl e \<Rightarrow> (Inl e, snd (get_database_spec d w))
      | Inr r \<Rightarrow>
          (case fst (get_query_tool s d (snd (get_database_spec d w))) of
             Inl e \<Rightarrow> (Inl e, snd (get_query_tool s d (snd (get_database_spec d w))))
           | Inr q \<Rightarrow>
               create_tools s ds (tools @ [QueryTool q] @ to_tool_list r)
                 (set_handler_at r (Some database_spec_handler)
                    (snd (get_query_tool s d (snd (get_database_spec d w)))))))"
  by (simp split: prod.splits sum.splits)

lemma create_tools_extends: "extends w (snd (create_tools s ds tools w))"
proof (induction ds arbitrary: tools w)
  case Nil
  show ?case by simp
next
  case (Cons d ds)
  let ?w1 = "snd (get_database_spec d w)"
  let ?w2 = "snd (get_query_tool s d ?w1)"
  have e1: "extends w ?w1" by (rule get_database_spec_extends)
  have e2: "extends w ?w2" by (rule extends_trans [OF e1 get_query_tool_extends])
  have e3: "extends w (snd (create_tools s ds tl (set_handler_at r f ?w2)))" for tl r f
    by (rule extends_trans [OF e2], rule extends_trans [OF set_handler_at_extends Cons.IH])
  show ?case
    using e1 e2 e3 by (simp only: create_tools_Cons split: sum.splits) simp
qed

lemma create_tools_fields:
  "agent_cache (snd (create_tools s ds tools w)) = agent_cache w \<and>
   agents (snd (create_tools s ds tools w)) = agents w \<and>
   session (snd (create_tools s ds tools w)) = session w"
proof (induction ds arbitrary: tools w)
  case Nil
  show ?case by simp
next
  case (Cons d ds)
  show ?case
    by (simp only: create_tools_Cons split: sum.splits)
       (simp add: Cons.IH set_handler_at_fields get_query_tool_fields get_database_spec_fields)
qed

lemma create_tools_ok:
  "caches_ok w \<Longrightarrow> caches_ok (snd (create_tools s ds tools w))"
proof (induction ds arbitrary: tools w)
  case Nil
  then show ?case by simp
next
  case (Cons d ds)
  let ?w1 = "snd (get_database_spec d w)"
  let ?w2 = "snd (get_query_tool s d ?w1)"
  have o1: "caches_ok ?w1" using Cons.prems by (rule get_database_spec_ok)
  then have o2: "caches_ok ?w2" by (rule get_query_tool_ok)
  then have o3: "caches_ok (snd (create_tools s ds tl (set_handler_at r f ?w2)))" for tl r f
    by (intro Cons.IH set_handler_at_ok)
  show ?case
    using o1 o2 o3 by (simp only: create_tools_Cons split: sum.splits) simp
qed


subsection \<open>The agent cache\<close>

lemma get_agent_body_raw:
  "get_agent_body (c, ts) w =
     (case conversations (session w) c of
        None \<Rightarrow> (Inl (KeyError c), w)
      | Some conv \<Rightarrow>
          (case fst (create_tools (vector_store_id conv) (database_ids conv) [] w) of
             Inl e \<Rightarrow>
               (Inl e, snd (create_tools (vector_store_id conv) (database_ids conv) [] w))
           | Inr tools \<Rightarrow>
               (Inr (length (agents
                  (snd (create_tools (vector_store_id conv) (database_ids conv) [] w)))),
                (snd (create_tools (vector_store_id conv) (database_ids conv) [] w))
                  \<lparr>agents := agents
                     (snd (create_tools (vector_store_id conv) (database_ids conv) [] w)) @
                     [\<lparr>agent_tools = tools, verbose = True\<rparr>]\<rparr>)))"
  by (simp add: get_agent_body_def from_tools_def split: option.splits prod.splits sum.splits)

lemma get_agent_body_unfold:
  "get_agent_body (c, ts) w =
     (case conversations (session w) c of
        None \<Rightarrow> (Inl (KeyError c), w)
      | Some conv \<Rightarrow>
          (case fst (create_tools (vector_store_id conv) (database_ids conv) [] w) of
             Inl e \<Rightarrow>
               (Inl e, snd (create_tools (vector_store_id conv) (database_ids conv) [] w))
           | Inr tools \<Rightarrow>
               (Inr (length (agents w)),
                (snd (create_tools (vector_store_id conv) (database_ids conv) [] w))
                  \<lparr>agents := agents w @ [\<lparr>agent_tools = tools, verbose = True\<rparr>]\<rparr>)))"
  by (simp add: get_agent_body_raw create_tools_fields split: option.splits sum.splits)

lemma get_agent_body_timestamp:
  "get_agent_body (c, t1) w = get_agent_body (c, t2) w"
  by (simp add: get_agent_body_def)

lemma get_agent_unfold:
  "get_agent c ts w =
     (case agent_cache w (c, ts) of
        Some a \<Rightarrow> (Inr a, w)
      | None \<Rightarrow>
          (case fst (get_agent_body (c, ts) w) of
             Inl e \<Rightarrow> (Inl e, snd (get_agent_body (c, ts) w))
           | Inr a \<Rightarrow>
               (Inr a, (snd (get_agent_body (c, ts) w))
                  \<lparr>agent_cache := (agent_cache (snd (get_agent_body (c, ts) w)))((c, ts) \<mapsto> a)\<rparr>)))"
  by (simp add: get_agent_def cache_resource_unfold)

lemma get_agent_hit:
  "agent_cache w (c, ts) = Some a \<Longrightarrow> get_agent c ts w = (Inr a, w)"
  by (simp add: get_agent_unfold)

lemma get_agent_body_fields:
  "agent_cache (snd (get_agent_body (c, ts) w)) = agent_cache w"
  "session (snd (get_agent_body (c, ts) w)) = session w"
  by (simp_all add: get_agent_body_unfold create_tools_fields split: option.splits sum.splits)

lemma get_agent_miss:
  assumes "agent_cache w (c, ts) = None" and "get_agent c ts w = (Inr a, w')"
  shows "a = length (agents w) \<and> (\<exists>x. agents w' = agents w @ [x]) \<and>
         agent_cache w' = (agent_cache w)((c, ts) \<mapsto> a)"
  using assms
  by (auto simp add: get_agent_unfold get_agent_body_unfold create_tools_fields
      split: option.splits sum.splits)

lemma get_agent_result:
  assumes "get_agent c ts w = (Inr a, w')"
  shows "agent_cache w' (c, ts) = Some a"
proof (cases "agent_cache w (c, ts)")
  case None
  from get_agent_miss [OF None assms] show ?thesis by simp
next
  case (Some a0)
  from get_agent_hit [OF Some] assms Some show ?thesis by simp
qed

lemma extends_add_agent:
  assumes "extends w x"
  shows "extends w (x\<lparr>agents := agents x @ [g]\<rparr>)"
  using assms unfolding extends_def by (auto simp add: nth_append)

lemma extends_store_agent_cache:
  assumes "extends w x" and "agent_cache w k = None"
  shows "extends w (x\<lparr>agent_cache := (agent_cache x)(k \<mapsto> a)\<rparr>)"
  using assms unfolding extends_def by auto

lemma get_agent_body_extends: "extends w (snd (get_agent_body (c, ts) w))"
proof -
  have e: "extends w (snd (create_tools s ds [] w))" for s ds
    by (rule create_tools_extends)
  have "extends w ((snd (create_tools s ds [] w))\<lparr>agents := agents w @ [g]\<rparr>)" for s ds g
    using extends_add_agent [OF e, of s ds g] by (simp add: create_tools_fields)
  with e show ?thesis
    by (simp add: get_agent_body_unfold split: option.splits sum.splits)
qed

lemma get_agent_extends: "extends w (snd (get_agent c ts w))"
  using get_agent_body_extends [of w c ts]
  by (simp add: get_agent_unfold extends_store_agent_cache split: option.splits sum.splits)

lemma cached_tool_ok_agents [simp]:
  "cached_tool_ok (x\<lparr>agents := g\<rparr>) d t = cached_tool_ok x d t"
  "cached_tool_ok (x\<lparr>agent_cache := k\<rparr>) d t = cached_tool_ok x d t"
  by (simp_all add: cached_tool_ok_def split: option.splits)

lemma caches_ok_add_agent:
  assumes "caches_ok x"
  shows "caches_ok (x\<lparr>agents := agents x @ [g]\<rparr>)"
  using assms unfolding caches_ok_def
  by (auto simp add: less_Suc_eq)

lemma caches_ok_store_agent_cache:
  assumes "caches_ok x" and "a < length (agents x)"
  shows "caches_ok (x\<lparr>agent_cache := (agent_cache x)(k \<mapsto> a)\<rparr>)"
  using assms unfolding caches_ok_def
  by (cases k) auto

lemma get_agent_body_ok:
  assumes "caches_ok w"
  shows "caches_ok (snd (get_agent_body (c, ts) w))"
proof -
  have o: "caches_ok (snd (create_tools s ds [] w))" for s ds
    using assms by (rule create_tools_ok)
  have "caches_ok ((snd (create_tools s ds [] w))\<lparr>agents := agents w @ [g]\<rparr>)" for s ds g
    using caches_ok_add_agent [OF o, of s ds g] by (simp add: create_tools_fields)
  with o assms show ?thesis
    by (simp add: get_agent_body_unfold split: option.splits sum.splits)
qed

lemma get_agent_body_fresh:
  assumes "fst (get_agent_body (c, ts) w) = Inr a"
  shows "a = length (agents w) \<and> a < length (agents (snd (get_agent_body (c, ts) w)))"
  using assms
  by (auto simp add: get_agent_body_unfold split: option.splits sum.splits)

lemma get_agent_ok:
  assumes "caches_ok w"
  shows "caches_ok (snd (get_agent c ts w))"
proof (cases "agent_cache w (c, ts)")
  case (Some a)
  with assms show ?thesis by (simp add: get_agent_unfold)
next
  case None
  show ?thesis
  proof (cases "fst (get_agent_body (c, ts) w)")
    case (Inl e)
    with None get_agent_body_ok [OF assms, of c ts] show ?thesis
      by (simp add: get_agent_unfold)
  next
    case (Inr a)
    from get_agent_body_fresh [OF Inr]
    have "a < length (agents (snd (get_agent_body (c, ts) w)))" by simp
    from caches_ok_store_agent_cache [OF get_agent_body_ok [OF assms] this] None Inr
    show ?thesis by (simp add: get_agent_unfold)
  qed
qed

lemma caches_ok_empty:
  assumes "spec_cache w = Map.empty" "tool_cache w = Map.empty" "agent_cache w = Map.empty"
  shows "caches_ok w"
  using assms by (simp add: caches_ok_def)

lemma get_storage_context_ok:
  "caches_ok (snd (get_storage_context s w)) = caches_ok w"
  by (simp add: caches_ok_def cached_tool_ok_def get_storage_context_fields
        cong: option.case_cong)

lemma load_data_fields:
  "adapters (snd (load_data self q w)) = adapters w"
  "spec_cache (snd (load_data self q w)) = spec_cache w"
  "tool_cache (snd (load_data self q w)) = tool_cache w"
  "agent_cache (snd (load_data self q w)) = agent_cache w"
  "agents (snd (load_data self q w)) = agents w"
  by (simp_all add: load_data_def connect_def execute_def close_def emit_def
      split: option.splits sum.splits handler_attr.splits prod.splits)

lemma load_data_ok:
  "caches_ok (snd (load_data self q w)) = caches_ok w"
  by (simp add: caches_ok_def cached_tool_ok_def load_data_fields cong: option.case_cong)

lemmas demo_defs = demo_world_def demo_session_def demo_database_def

lemmas tool_defs = get_query_tool_def get_query_tool_body_def from_documents_def
  as_query_engine_def table_document_def list_tables_def describe_tables_def
  get_vector_store_type_def

lemma demo_ok: "caches_ok demo_world"
  by (rule caches_ok_empty) (simp_all add: demo_world_def)

section \<open>The result queue\<close>

text \<open>
  A handler that is registered stays registered through the calls that build an agent, and
  building the tools of a conversation registers the callback with the adapter of each of
  its databases.
\<close>

lemma registered_get_database_spec:
  "registered w i \<Longrightarrow> registered (snd (get_database_spec d w)) i"
  using get_database_spec_adapters [of d w]
  by (auto simp add: registered_def nth_append)

lemma registered_get_query_tool:
  assumes "registered w i"
  shows "registered (snd (get_query_tool s d w)) i"
  using get_query_tool_spec [of s d w]
proof
  assume "snd (get_query_tool s d w) = w"
  with assms show ?thesis by simp
next
  assume "spec_cache (snd (get_query_tool s d w)) = spec_cache (snd (get_database_spec d w)) \<and>
    adapters (snd (get_query_tool s d w)) = adapters (snd (get_database_spec d w))"
  then have "registered (snd (get_query_tool s d w)) i =
             registered (snd (get_database_spec d w)) i"
    by (simp add: registered_def)
  with registered_get_database_spec [OF assms] show ?thesis by simp
qed

lemma registered_set_handler_at:
  "registered w i \<Longrightarrow> registered (set_handler_at r (Some database_spec_handler) w) i"
  by (cases "i = r") (simp_all add: registered_def set_handler_at_def set_handler_def)

lemma set_handler_at_registers:
  "r < length (adapters w) \<Longrightarrow> registered (set_handler_at r (Some database_spec_handler) w) r"
  by (simp add: registered_def set_handler_at_def set_handler_def)

lemma registered_create_tools:
  "registered w i \<Longrightarrow> registered (snd (create_tools s ds tools w)) i"
proof (induction ds arbitrary: tools w)
  case Nil
  then show ?case by simp
next
  case (Cons d ds)
  let ?w1 = "snd (get_database_spec d w)"
  let ?w2 = "snd (get_query_tool s d ?w1)"
  have r1: "registered ?w1 i" using Cons.prems by (rule registered_get_database_spec)
  then have r2: "registered ?w2 i" by (rule registered_get_query_tool)
  then have r3: "registered (snd (create_tools s ds tl
                   (set_handler_at r (Some database_spec_handler) ?w2))) i" for tl r
    by (intro Cons.IH registered_set_handler_at)
  show ?case
    by (simp only: create_tools_Cons split: sum.splits) (simp add: r1 r2 r3)
qed

lemma create_tools_registers:
  assumes "caches_ok w" and "fst (create_tools s ds tools w) = Inr tools1" and "d \<in> set ds"
  shows "\<exists>r. spec_cache (snd (create_tools s ds tools w)) d = Some r \<and>
             registered (snd (create_tools s ds tools w)) r"
  using assms
proof (induction ds arbitrary: tools w)
  case Nil
  then show ?case by simp
next
  case (Cons d0 ds)
  let ?w1 = "snd (get_database_spec d0 w)"
  let ?w2 = "snd (get_query_tool s d0 ?w1)"
  from Cons.prems(2) obtain r q where
    f1: "fst (get_database_spec d0 w) = Inr r" and
    f2: "fst (get_query_tool s d0 ?w1) = Inr q" and
    f3: "fst (create_tools s ds (tools @ [QueryTool q] @ to_tool_list r)
               (set_handler_at r (Some database_spec_handler) ?w2)) = Inr tools1"
    by (simp only: create_tools_Cons split: sum.splits) auto
  let ?w3 = "set_handler_at r (Some database_spec_handler) ?w2"
  let ?tools = "tools @ [QueryTool q] @ to_tool_list r"
  let ?w4 = "snd (create_tools s ds ?tools ?w3)"
  have w4: "snd (create_tools s (d0 # ds) tools w) = ?w4"
    using f1 f2 by (simp only: create_tools_Cons split: sum.splits) simp
  have o1: "caches_ok ?w1" using Cons.prems(1) by (rule get_database_spec_ok)
  then have o2: "caches_ok ?w2" by (rule get_query_tool_ok)
  then have o3: "caches_ok ?w3" by (rule set_handler_at_ok)
  show ?case
  proof (cases "d = d0")
    case True
    have "get_database_spec d0 w = (Inr r, ?w1)" using f1 by (simp add: prod_eq_iff)
    then have c1: "spec_cache ?w1 d0 = Some r" by (rule get_database_spec_result)
    with get_query_tool_extends [of ?w1 s d0] have c2: "spec_cache ?w2 d0 = Some r"
      by (simp add: extends_def)
    with o2 have lt: "r < length (adapters ?w2)" by (simp add: caches_ok_def)
    from c2 have c3: "spec_cache ?w3 d0 = Some r" by (simp add: set_handler_at_fields)
    with create_tools_extends [of ?w3 s ds ?tools] have c4: "spec_cache ?w4 d0 = Some r"
      by (simp add: extends_def)
    from lt have "registered ?w3 r" by (rule set_handler_at_registers)
    then have "registered ?w4 r" by (rule registered_create_tools)
    with c4 True w4 show ?thesis by simp
  next
    case False
    with Cons.prems(3) have "d \<in> set ds" by simp
    from Cons.IH [OF o3 f3 this] w4 show ?thesis by simp
  qed
qed

lemma get_agent_registers:
  assumes ok: "caches_ok w"
      and cold: "agent_cache w (c, ts) = None"
      and built: "get_agent c ts w = (Inr a, w1)"
      and conv: "conversations (session w) c = Some conv"
      and d: "d \<in> set (database_ids conv)"
  shows "\<exists>r. spec_cache w1 d = Some r \<and> registered w1 r"
proof -
  let ?ct = "create_tools (vector_store_id conv) (database_ids conv) [] w"
  from built cold conv obtain tools1 where
    f: "fst ?ct = Inr tools1" and
    w1: "w1 = (snd ?ct)\<lparr>agents := agents w @ [\<lparr>agent_tools = tools1, verbose = True\<rparr>],
                agent_cache := (agent_cache w)((c, ts) \<mapsto> a)\<rparr>"
    by (auto simp add: get_agent_unfold get_agent_body_unfold create_tools_fields
        split: sum.splits)
  from create_tools_registers [OF ok f d] obtain r where
    "spec_cache (snd ?ct) d = Some r" and "registered (snd ?ct) r" by blast
  with w1 show ?thesis by (simp add: registered_def)
qed

lemma load_data_tracked:
  assumes "handler self = Attr (Some database_spec_handler)"
      and "servers w (adapter_uri self) = Some db" and "db_up db"
      and "conversations (session w) (current_conversation (session w)) = Some cv"
  shows "fst (load_data self (Some q) w) =
           map_sum (\<lambda>e. e) (map row_document)
             (case db_run db (db_history db) q of Inl e \<Rightarrow> Inl e | Inr r \<Rightarrow> fetchall r) \<and>
         servers (snd (load_data self (Some q) w)) (adapter_uri self) =
           Some (db\<lparr>db_history := db_history db @ [q]\<rparr>) \<and>
         current_conversation (session (snd (load_data self (Some q) w))) =
           current_conversation (session w) \<and>
         conversations (session (snd (load_data self (Some q) w)))
             (current_conversation (session w)) =
           Some (cv\<lparr>query_results_queue := query_results_queue cv @
                   returned [(q, case db_run db (db_history db) q of
                                   Inl e \<Rightarrow> Inl e | Inr r \<Rightarrow> fetchall r)]\<rparr>)"
proof (cases "db_run db (db_history db) q")
  case (Inl e)
  with assms show ?thesis
    by (simp add: load_data_def connect_def execute_def close_def emit_def)
next
  case (Inr r)
  show ?thesis
  proof (cases r)
    case NoRows
    with Inr assms show ?thesis
      by (simp add: load_data_def connect_def execute_def close_def emit_def fetchall_def)
  next
    case (ReturnsRows items)
    with Inr assms show ?thesis
      by (simp add: load_data_def connect_def execute_def close_def emit_def fetchall_def
            database_spec_handler_def)
  qed
qed

lemma returned_Cons:
  "returned ((q, x) # xs) = returned [(q, x)] @ returned xs"
  by (cases x) simp_all

lemma load_data_each_queue:
  assumes h: "handler self = Attr (Some database_spec_handler)"
  shows "servers w (adapter_uri self) = Some db \<Longrightarrow> db_up db \<Longrightarrow>
         conversations (session w) (current_conversation (session w)) = Some cv \<Longrightarrow>
         fst (load_data_each self qs w) =
           map (map_sum (\<lambda>e. e) (map row_document)) (server_rows db qs) \<and>
         current_conversation (session (snd (load_data_each self qs w))) =
           current_conversation (session w) \<and>
         conversations (session (snd (load_data_each self qs w)))
             (current_conversation (session w)) =
           Some (cv\<lparr>query_results_queue :=
                   query_results_queue cv @ returned (zip qs (server_rows db qs))\<rparr>)"
proof (induction qs arbitrary: w db cv)
  case Nil
  then show ?case by simp
next
  case (Cons q qs)
  let ?x = "case db_run db (db_history db) q of Inl e \<Rightarrow> Inl e | Inr r \<Rightarrow> fetchall r"
  let ?w1 = "snd (load_data self (Some q) w)"
  let ?db1 = "db\<lparr>db_history := db_history db @ [q]\<rparr>"
  let ?cv1 = "cv\<lparr>query_results_queue := query_results_queue cv @ returned [(q, ?x)]\<rparr>"
  from load_data_tracked [OF h Cons.prems(1,2,3), of q] have
    r: "fst (load_data self (Some q) w) = map_sum (\<lambda>e. e) (map row_document) ?x" and
    s: "servers ?w1 (adapter_uri self) = Some ?db1" and
    c: "current_conversation (session ?w1) = current_conversation (session w)" and
    v: "conversations (session ?w1) (current_conversation (session w)) = Some ?cv1"
    by blast+
  have up: "db_up ?db1" using Cons.prems(2) by simp
  from v c have v': "conversations (session ?w1) (current_conversation (session ?w1)) =
                       Some ?cv1" by simp
  from Cons.IH [OF s up v'] c have
    r': "fst (load_data_each self qs ?w1) =
           map (map_sum (\<lambda>e. e) (map row_document)) (server_rows ?db1 qs)" and
    c': "current_conversation (session (snd (load_data_each self qs ?w1))) =
           current_conversation (session w)" and
    q': "conversations (session (snd (load_data_each self qs ?w1)))
             (current_conversation (session w)) =
           Some (?cv1\<lparr>query_results_queue :=
                   query_results_queue ?cv1 @ returned (zip qs (server_rows ?db1 qs))\<rparr>)"
    by simp_all
  have e: "load_data_each self (q # qs) w =
             (fst (load_data self (Some q) w) # fst (load_data_each self qs ?w1),
              snd (load_data_each self qs ?w1))"
    by (simp split: prod.splits)
  show ?case
    unfolding e using r r' c' q'
    by (simp add: returned_Cons [of q ?x "zip qs (server_rows ?db1 qs)"])
qed

text \<open>
  C3, as the code has it. \<open>get_agent\<close> builds the agent of a conversation in a world
  whose caches are sound. Then the adapter cached for each database of the conversation
  carries the module's callback. When the queries \<open>qs\<close> are then sent to \<open>load_data\<close> of
  that adapter one after the other, with the server up and the active conversation in the
  session, every one of them is executed; a call returns the documents of the rows when the
  statement gave rows and raises otherwise; and the queue of the active conversation has
  grown by exactly one pair of query and rows for each statement that gave rows, in the
  order of the calls, and by nothing for a statement that failed or gave no rows.
\<close>

theorem agent_queries_queue:
  assumes ok: "caches_ok w"
      and cold: "agent_cache w (c, ts) = None"
      and built: "get_agent c ts w = (Inr a, w1)"
      and conv: "conversations (session w) c = Some conv"
      and d: "d \<in> set (database_ids conv)"
  shows "\<exists>r. spec_cache w1 d = Some r \<and> r < length (adapters w1) \<and>
           handler (adapters w1 ! r) = Attr (Some database_spec_handler) \<and>
           (\<forall>qs db cv.
              servers w1 (adapter_uri (adapters w1 ! r)) = Some db \<and> db_up db \<and>
              conversations (session w1) (current_conversation (session w1)) = Some cv \<longrightarrow>
              fst (load_data_each (adapters w1 ! r) qs w1) =
                map (map_sum (\<lambda>e. e) (map row_document)) (server_rows db qs) \<and>
              current_conversation (session (snd (load_data_each (adapters w1 ! r) qs w1))) =
                current_conversation (session w1) \<and>
              conversations (session (snd (load_data_each (adapters w1 ! r) qs w1)))
                  (current_conversation (session w1)) =
                Some (cv\<lparr>query_results_queue :=
                        query_results_queue cv @ returned (zip qs (server_rows db qs))\<rparr>))"
proof -
  from get_agent_registers [OF ok cold built conv d] obtain r where
    c: "spec_cache w1 d = Some r" and g: "registered w1 r" by blast
  from g have lt: "r < length (adapters w1)"
    and h: "handler (adapters w1 ! r) = Attr (Some database_spec_handler)"
    by (simp_all add: registered_def)
  from c lt h load_data_each_queue [OF h] show ?thesis by blast
qed

lemma demo_agent_built:
  "\<exists>a. fst (get_agent ''c1'' 1 demo_world) = Inr a"
  by (simp add: get_agent_def get_agent_body_def from_tools_def set_handler_at_def
        to_tool_list_def tool_defs spec_defs storage_defs demo_defs)

lemma demo_agent_world:
  "spec_cache (snd (get_agent ''c1'' 1 demo_world)) ''db1'' = Some 0"
  "adapters (snd (get_agent ''c1'' 1 demo_world)) ! 0 =
     demo_adapter (Attr (Some database_spec_handler))"
  "servers (snd (get_agent ''c1'' 1 demo_world)) ''sqlite://'' = Some demo_database"
  "session (snd (get_agent ''c1'' 1 demo_world)) = demo_session"
  by (simp_all add: get_agent_def get_agent_body_def from_tools_def set_handler_at_def
        set_handler_def to_tool_list_def tool_defs spec_defs storage_defs demo_defs
        demo_adapter_def)

theorem agent_queries_queue_witness:
  "map_option query_results_queue
     (conversations (session (snd (load_data_each
          (adapters (snd (get_agent ''c1'' 1 demo_world)) ! 0)
          [''SELECT COUNT(*) FROM log'', ''DELETE FROM t'', ''SELECT id, name FROM t'',
           ''DROP TABLE t'', ''SELECT COUNT(*) FROM log'']
          (snd (get_agent ''c1'' 1 demo_world))))) ''c1'') =
   Some [(''SELECT COUNT(*) FROM log'', [[SqlInt 0]]),
         (''SELECT id, name FROM t'', [[SqlInt 1, SqlStr ''a''], [SqlInt 2, SqlStr ''b'']]),
         (''SELECT COUNT(*) FROM log'', [[SqlInt 4]])]"
proof -
  let ?w1 = "snd (get_agent ''c1'' 1 demo_world)"
  let ?qs = "[''SELECT COUNT(*) FROM log'', ''DELETE FROM t'', ''SELECT id, name FROM t'',
              ''DROP TABLE t'', ''SELECT COUNT(*) FROM log'']"
  let ?cv = "\<lparr>vector_store_id = ''mem'', database_ids = [''db1''],
              query_results_queue = [], last_update = 0\<rparr>"
  obtain a where "fst (get_agent ''c1'' 1 demo_world) = Inr a"
    using demo_agent_built by blast
  then have built: "get_agent ''c1'' 1 demo_world = (Inr a, ?w1)"
    by (simp add: prod_eq_iff)
  have cold: "agent_cache demo_world (''c1'', 1) = None"
    by (simp add: demo_world_def)
  have conv: "conversations (session demo_world) ''c1'' = Some ?cv"
    by (simp add: demo_world_def demo_session_def)
  have d: "''db1'' \<in> set (database_ids ?cv)" by simp
  from agent_queries_queue [OF demo_ok cold built conv d] obtain r where
    c: "spec_cache ?w1 ''db1'' = Some r" and
    all: "\<forall>qs db cv.
              servers ?w1 (adapter_uri (adapters ?w1 ! r)) = Some db \<and> db_up db \<and>
              conversations (session ?w1) (current_conversation (session ?w1)) = Some cv \<longrightarrow>
              fst (load_data_each (adapters ?w1 ! r) qs ?w1) =
                map (map_sum (\<lambda>e. e) (map row_document)) (server_rows db qs) \<and>
              current_conversation (session (snd (load_data_each (adapters ?w1 ! r) qs ?w1))) =
                current_conversation (session ?w1) \<and>
              conversations (session (snd (load_data_each (adapters ?w1 ! r) qs ?w1)))
                  (current_conversation (session ?w1)) =
                Some (cv\<lparr>query_results_queue :=
                        query_results_queue cv @ returned (zip qs (server_rows db qs))\<rparr>)"
    by blast
  from c have r: "r = 0" by (simp add: demo_agent_world)
  have s: "servers ?w1 (adapter_uri (adapters ?w1 ! 0)) = Some demo_database"
    by (simp add: demo_agent_world demo_adapter_def)
  have up: "db_up demo_database" by (simp add: demo_database_def)
  have cur: "current_conversation (session ?w1) = ''c1''"
    by (simp add: demo_agent_world demo_session_def)
  have cv: "conversations (session ?w1) (current_conversation (session ?w1)) = Some ?cv"
    by (simp add: demo_agent_world demo_session_def)
  from all [rule_format, of demo_database ?cv ?qs] r s up cv
  have "conversations (session (snd (load_data_each (adapters ?w1 ! 0) ?qs ?w1)))
                  (current_conversation (session ?w1)) =
                Some (?cv\<lparr>query_results_queue :=
                        query_results_queue ?cv @ returned (zip ?qs (server_rows demo_database ?qs))\<rparr>)"
    by blast
  with cur show ?thesis
    by (simp add: demo_database_def demo_run_def fetchall_def)
qed

text \<open>
  C3 as stated fails: the adapter of the agent built for the concrete world carries the
  callback, and \<open>DELETE FROM t\<close> sent through it is executed by the server, whose history
  gains the statement, while the call raises at \<open>fetchall\<close> and the queue of the active
  conversation stays empty.
\<close>

theorem executed_statement_not_queued:
  "handler (adapters (snd (get_agent ''c1'' 1 demo_world)) ! 0) =
     Attr (Some database_spec_handler) \<and>
   fst (load_data (adapters (snd (get_agent ''c1'' 1 demo_world)) ! 0)
          (Some ''DELETE FROM t'') (snd (get_agent ''c1'' 1 demo_world))) =
     Inl ResourceClosedError \<and>
   map_option db_history
     (servers (snd (load_data (adapters (snd (get_agent ''c1'' 1 demo_world)) ! 0)
          (Some ''DELETE FROM t'') (snd (get_agent ''c1'' 1 demo_world)))) ''sqlite://'') =
     Some [''DELETE FROM t''] \<and>
   map_option query_results_queue
     (conversations (session (snd (load_data
          (adapters (snd (get_agent ''c1'' 1 demo_world)) ! 0)
          (Some ''DELETE FROM t'') (snd (get_agent ''c1'' 1 demo_world))))) ''c1'') =
     Some []"
  by (simp add: demo_agent_world demo_adapter_def load_data_def connect_def execute_def
        fetchall_def close_def emit_def demo_database_def demo_run_def demo_session_def)

section \<open>Claims about the caches\<close>

text \<open>
  C4. Start in a world whose caches are sound. A call of \<open>get_database_spec\<close> for
  \<open>d\<close> returns the adapter \<open>r\<close>; then \<open>get_agent\<close> is called for a conversation with
  the timestamp \<open>t1\<close>, and then with another timestamp \<open>t2\<close> for which nothing is cached;
  all three calls return. Then a repeated call of \<open>get_database_spec\<close> for \<open>d\<close>, right
  after the first or after the agents were built, returns the same reference \<open>r\<close> and
  leaves the world as it is, so it constructs nothing; the first call constructed exactly
  one adapter when \<open>d\<close> was not cached and none when it was. A repeated call of
  \<open>get_agent\<close> with \<open>t1\<close> returns the same agent reference and leaves the world as it
  is, also after the call with \<open>t2\<close>; the call with \<open>t2\<close> returns a reference different
  from the first, that of exactly one new agent object.
\<close>

theorem cache_identity:
  assumes ok: "caches_ok w"
      and s1: "get_database_spec d w = (Inr r, w1)"
      and g1: "get_agent c t1 w1 = (Inr a1, w2)"
      and ne: "t2 \<noteq> t1"
      and cold: "agent_cache w2 (c, t2) = None"
      and g2: "get_agent c t2 w2 = (Inr a2, w3)"
  shows "get_database_spec d w1 = (Inr r, w1) \<and>
         get_database_spec d w3 = (Inr r, w3) \<and>
         (spec_cache w d = None \<longrightarrow>
            r = length (adapters w) \<and> length (adapters w1) = Suc (length (adapters w))) \<and>
         (spec_cache w d \<noteq> None \<longrightarrow> w1 = w) \<and>
         get_agent c t1 w2 = (Inr a1, w2) \<and>
         get_agent c t1 w3 = (Inr a1, w3) \<and>
         a2 \<noteq> a1 \<and> a2 = length (agents w2) \<and> length (agents w3) = Suc (length (agents w2))"
proof -
  have w1: "w1 = snd (get_database_spec d w)" using s1 by simp
  have w2: "w2 = snd (get_agent c t1 w1)" using g1 by simp
  have w3: "w3 = snd (get_agent c t2 w2)" using g2 by simp
  have e12: "extends w1 w2" unfolding w2 by (rule get_agent_extends)
  have e23: "extends w2 w3" unfolding w3 by (rule get_agent_extends)
  have c1: "spec_cache w1 d = Some r" using s1 by (rule get_database_spec_result)
  with e12 have "spec_cache w2 d = Some r" by (simp add: extends_def)
  with e23 have c3: "spec_cache w3 d = Some r" by (simp add: extends_def)
  have k2: "agent_cache w2 (c, t1) = Some a1" using g1 by (rule get_agent_result)
  with e23 have k3: "agent_cache w3 (c, t1) = Some a1" by (simp add: extends_def)
  have "caches_ok w1" unfolding w1 using ok by (rule get_database_spec_ok)
  then have "caches_ok w2" unfolding w2 by (rule get_agent_ok)
  with k2 have lt: "a1 < length (agents w2)" by (simp add: caches_ok_def)
  from get_agent_miss [OF cold g2] obtain x where
    a2: "a2 = length (agents w2)" and ag: "agents w3 = agents w2 @ [x]" by blast
  have miss: "spec_cache w d = None \<longrightarrow>
            r = length (adapters w) \<and> length (adapters w1) = Suc (length (adapters w))"
  proof
    assume n: "spec_cache w d = None"
    from get_database_spec_miss [OF n s1]
    show "r = length (adapters w) \<and> length (adapters w1) = Suc (length (adapters w))" by auto
  qed
  have hit: "spec_cache w d \<noteq> None \<longrightarrow> w1 = w"
  proof
    assume "spec_cache w d \<noteq> None"
    then obtain r0 where "spec_cache w d = Some r0" by auto
    from get_database_spec_hit [OF this] s1 show "w1 = w" by simp
  qed
  from get_database_spec_hit [OF c1] get_database_spec_hit [OF c3] miss hit
    get_agent_hit [OF k2] get_agent_hit [OF k3] lt a2 ag
  show ?thesis by simp
qed

lemma demo_spec_returns:
  "fst (get_database_spec ''db1'' demo_world) = Inr 0"
  by (simp add: spec_defs demo_defs)

lemma demo_agent_returns:
  "\<exists>a. fst (get_agent ''c1'' 1 (snd (get_database_spec ''db1'' demo_world))) = Inr a"
  by (simp add: get_agent_def get_agent_body_def from_tools_def set_handler_at_def
        to_tool_list_def tool_defs spec_defs storage_defs demo_defs)

lemma demo_agent_again_returns:
  "\<exists>a. fst (get_agent ''c1'' 2
             (snd (get_agent ''c1'' 1 (snd (get_database_spec ''db1'' demo_world))))) = Inr a"
  by (simp add: get_agent_def get_agent_body_def from_tools_def set_handler_at_def
        to_tool_list_def tool_defs spec_defs storage_defs demo_defs)

theorem cache_identity_witness:
  "fst (get_database_spec ''db1''
          (snd (get_agent ''c1'' 2
             (snd (get_agent ''c1'' 1 (snd (get_database_spec ''db1'' demo_world))))))) =
     Inr 0 \<and>
   length (adapters (snd (get_database_spec ''db1'' demo_world))) = 1 \<and>
   fst (get_agent ''c1'' 2
          (snd (get_agent ''c1'' 1 (snd (get_database_spec ''db1'' demo_world))))) \<noteq>
     fst (get_agent ''c1'' 1 (snd (get_database_spec ''db1'' demo_world)))"
proof -
  let ?w1 = "snd (get_database_spec ''db1'' demo_world)"
  let ?w2 = "snd (get_agent ''c1'' 1 ?w1)"
  let ?w3 = "snd (get_agent ''c1'' 2 ?w2)"
  have s1: "get_database_spec ''db1'' demo_world = (Inr 0, ?w1)"
    using demo_spec_returns by (simp add: prod_eq_iff)
  obtain a1 where f1: "fst (get_agent ''c1'' 1 ?w1) = Inr a1"
    using demo_agent_returns by blast
  then have g1: "get_agent ''c1'' 1 ?w1 = (Inr a1, ?w2)"
    by (simp add: prod_eq_iff)
  obtain a2 where f2: "fst (get_agent ''c1'' 2 ?w2) = Inr a2"
    using demo_agent_again_returns by blast
  then have g2: "get_agent ''c1'' 2 ?w2 = (Inr a2, ?w3)"
    by (simp add: prod_eq_iff)
  have n1: "agent_cache ?w1 (''c1'', 1) = None"
    by (simp add: get_database_spec_fields demo_world_def)
  have cold: "agent_cache ?w2 (''c1'', 2) = None"
    using get_agent_miss [OF n1 g1]
    by (simp add: get_database_spec_fields demo_world_def)
  have n0: "spec_cache demo_world ''db1'' = None"
    by (simp add: demo_world_def)
  from cache_identity [OF demo_ok s1 g1 _ cold g2] n0 f1 f2 show ?thesis
    by simp
qed

text \<open>
  C5. When neither of two timestamps has a cached agent for a conversation, the two calls
  of \<open>get_agent\<close> that differ only in the timestamp run the same body with the same
  outcome: they return the same result, leave the same heap of agents, and leave worlds
  that are equal apart from the key under which the agent cache has stored the result.
\<close>

theorem timestamp_only_a_key:
  assumes "agent_cache w (c, t1) = None" and "agent_cache w (c, t2) = None"
  shows "get_agent_body (c, t1) w = get_agent_body (c, t2) w \<and>
         fst (get_agent c t1 w) = fst (get_agent c t2 w) \<and>
         agents (snd (get_agent c t1 w)) = agents (snd (get_agent c t2 w)) \<and>
         (snd (get_agent c t1 w))\<lparr>agent_cache := agent_cache w\<rparr> =
           (snd (get_agent c t2 w))\<lparr>agent_cache := agent_cache w\<rparr>"
  using assms get_agent_body_timestamp [of c t1 w t2]
  by (simp add: get_agent_unfold split: sum.splits)

theorem timestamp_only_a_key_witness:
  "fst (get_agent ''c1'' 1 demo_world) = fst (get_agent ''c1'' 2 demo_world) \<and>
   agents (snd (get_agent ''c1'' 1 demo_world)) = agents (snd (get_agent ''c1'' 2 demo_world)) \<and>
   (snd (get_agent ''c1'' 1 demo_world))\<lparr>agent_cache := Map.empty\<rparr> =
     (snd (get_agent ''c1'' 2 demo_world))\<lparr>agent_cache := Map.empty\<rparr>"
proof -
  have n: "agent_cache demo_world (''c1'', 1) = None" "agent_cache demo_world (''c1'', 2) = None"
    and e: "agent_cache demo_world = Map.empty"
    by (simp_all add: demo_world_def)
  from timestamp_only_a_key [OF n] e show ?thesis
    by simp
qed

text \<open>
  C8. In a world whose caches are sound, a call of \<open>get_query_tool\<close> that returns has
  returned a tool named \<open>table_query_engine\<close> whose index was built from exactly one
  document per table that the adapter cached for the database id lists, in the order of
  the list, each document holding the quoted table name and the adapter's description of
  that table.
\<close>

theorem query_tool_documents:
  assumes ok: "caches_ok w" and res: "get_query_tool s d w = (Inr t, w')"
  shows "\<exists>r. spec_cache w' d = Some r \<and> r < length (adapters w') \<and>
           index_documents (engine_index (query_engine t)) =
             map (table_document (adapters w' ! r)) (list_tables (adapters w' ! r)) \<and>
           length (index_documents (engine_index (query_engine t))) =
             length (list_tables (adapters w' ! r)) \<and>
           md_name (metadata t) = ''table_query_engine''"
  using get_query_tool_tool_ok [OF ok res]
  by (auto simp add: cached_tool_ok_def split: option.splits)

lemma demo_tool_returns:
  "\<exists>t w'. get_query_tool ''mem'' ''db1'' demo_world = (Inr t, w')"
  by (simp add: tool_defs spec_defs storage_defs demo_defs)

theorem query_tool_documents_witness:
  "\<exists>t w'. get_query_tool ''mem'' ''db1'' demo_world = (Inr t, w') \<and>
     md_name (metadata t) = ''table_query_engine'' \<and>
     length (index_documents (engine_index (query_engine t))) = 2 \<and>
     index_documents (engine_index (query_engine t)) =
       [Document (''Definition of '' @ [CHR 0x22] @ ''t'' @ [CHR 0x22] @ '' table:'' @
          [CHR 0x0A] @ ''CREATE TABLE t''),
        Document (''Definition of '' @ [CHR 0x22] @ ''log'' @ [CHR 0x22] @ '' table:'' @
          [CHR 0x0A] @ ''CREATE TABLE log'')]"
proof -
  obtain t w' where res: "get_query_tool ''mem'' ''db1'' demo_world = (Inr t, w')"
    using demo_tool_returns by blast
  from query_tool_documents [OF demo_ok res] obtain r where
    c: "spec_cache w' ''db1'' = Some r" and
    docs: "index_documents (engine_index (query_engine t)) =
             map (table_document (adapters w' ! r)) (list_tables (adapters w' ! r))" and
    nm: "md_name (metadata t) = ''table_query_engine''"
    by blast
  have w': "w' = snd (get_query_tool ''mem'' ''db1'' demo_world)"
    using res by simp
  have "spec_cache w' ''db1'' = Some 0"
    unfolding w' by (simp add: tool_defs spec_defs storage_defs demo_defs)
  with c have r: "r = 0" by simp
  have "map (table_document (adapters w' ! 0)) (list_tables (adapters w' ! 0)) =
       [Document (''Definition of '' @ [CHR 0x22] @ ''t'' @ [CHR 0x22] @ '' table:'' @
          [CHR 0x0A] @ ''CREATE TABLE t''),
        Document (''Definition of '' @ [CHR 0x22] @ ''log'' @ [CHR 0x22] @ '' table:'' @
          [CHR 0x0A] @ ''CREATE TABLE log'')]"
    unfolding w' by (simp add: tool_defs spec_defs storage_defs demo_defs)
  with docs r nm res show ?thesis by simp
qed

end
